theory Spec2Isabelle
  imports
    Main
    "HOL-Library.Word"
    "HOL-Library.AList"
    "HOL-Library.Multiset"
    "HOL-Library.Char_ord"
    "HOL-Library.List_Lexorder"
    "HOL-Library.Product_Lexorder"
begin

section \<open>The state factory of iotex-core (state/factory.go)\<close>

text \<open>
  The factory keeps three Go maps of pointers (cachedCandidates, cachedAccount,
  cachedContract), two tries and a key-value store. A Go map is an association list
  here: \<open>map_of\<close> is the lookup, \<open>AList.update\<close> the assignment \<open>m[k] = v\<close>,
  \<open>AList.delete\<close> the builtin \<open>delete\<close>, and the order of the list stands for the
  order in which \<open>range\<close> happens to visit the entries (Go leaves it unspecified).
  Every pointer stored in cachedAccount is reached through one key only, so a write
  through the pointer \<open>cachedAccount[a]\<close> is an update of the entry at \<open>a\<close>.
  Every method that mutates the receiver returns the new factory beside its result, also
  when the result is an error: Go keeps the mutations done before a failing return.
\<close>

subsection \<open>Data\<close>

type_synonym bytes = "8 word list"
type_synonym uint64 = "64 word"

datatype error =
    ErrNotEnoughBalance
  | ErrAccountNotExist
  | ErrAccountCollision
  | ErrFailedToMarshalState
  | ErrFailedToUnmarshalState
  | ErrNotExist
  | ErrBucketNotFound
  | ErrInvalidAddress
  | ErrNotContract
  | ErrOther
  | Panic

text \<open>
  The struct State is declared in state/state.go, which is not part of the sources; the
  fields are the ones factory.go reads and writes. Balance and VotingWeight are
  \<open>*big.Int\<close>, the nonce is a uint64.
\<close>

record State =
  Nonce :: uint64
  Balance :: int
  Root :: bytes
  CodeHash :: bytes
  IsCandidate :: bool
  VotingWeight :: int
  Votee :: string

text \<open>
  Candidate (state/candidate.go, absent). Votes is a \<open>*big.Int\<close> that handleVote leaves
  nil in the record it creates, hence the option.
\<close>

record Candidate =
  Address :: string
  Votes :: "int option"
  PubKey :: bytes
  CreationHeight :: uint64
  LastUpdateHeight :: uint64

text \<open>The actions (package action, absent): the fields and methods factory.go uses.
  The method \<open>tx.IsContract()\<close> is a field here, and the fields of \<open>v.GetVote()\<close>
  are fields of the vote.\<close>

record Transfer =
  TsfNonce :: uint64
  Amount :: int
  Sender :: string
  Recipient :: string
  IsCoinbase :: bool
  IsContract :: bool

record Vote =
  VoteNonce :: uint64
  VoterAddress :: string
  VoteeAddress :: string
  SelfPubkey :: bytes

record Execution =
  ExecNonce :: uint64
  Executor :: string

text \<open>
  Modelled from the spec: the trie library (package trie, absent), "consumed as a library
  with Get / Upsert / Commit / RootHash / EnableBatch semantics". With batching enabled an
  Upsert is visible to Get at once and reaches the key-value store at Commit: \<open>nodes\<close>
  is the content Get sees, \<open>flushed\<close> the content persisted by the last Commit. The
  library's own storage failures are not modelled; a missing key is ErrNotExist.
\<close>

record trie =
  nodes :: "bytes \<rightharpoonup> bytes"
  flushed :: "bytes \<rightharpoonup> bytes"

definition trieGet :: "trie \<Rightarrow> bytes \<Rightarrow> error + bytes" where
  "trieGet t k = (case nodes t k of None \<Rightarrow> Inl ErrNotExist | Some v \<Rightarrow> Inr v)"

definition trieUpsert :: "trie \<Rightarrow> bytes \<Rightarrow> bytes \<Rightarrow> trie" where
  "trieUpsert t k v = t\<lparr>nodes := (nodes t)(k \<mapsto> v)\<rparr>"

definition trieCommit :: "trie \<Rightarrow> trie" where
  "trieCommit t = t\<lparr>flushed := nodes t\<rparr>"

text \<open>
  Modelled from the spec: the contract handle (state/contract.go, absent), "a pair
  {account_record, storage_trie}".
\<close>

record Contract =
  SelfState :: State
  storage :: trie

text \<open>
  The functions of absent packages whose results the sources do not determine are
  parameters: the address decoder iotxaddress.GetPubkeyHash, byteutil.BytesTo20B, the
  codecs of state.go and candidate.go, State.isContract, trie.NewTrie on the contract
  namespace and the hash that a trie computes over its content.
\<close>

record env =
  GetPubkeyHash :: "string \<Rightarrow> error + bytes"
  BytesTo20B :: "bytes \<Rightarrow> bytes"
  stateToBytes :: "State \<Rightarrow> error + bytes"
  bytesToState :: "bytes \<Rightarrow> error + State"
  Serialize :: "Candidate list \<Rightarrow> error + bytes"
  Deserialize :: "bytes \<Rightarrow> error + Candidate list"
  isContract :: "State \<Rightarrow> bool"
  NewTrie :: "bytes \<Rightarrow> error + trie"
  hashOf :: "(bytes \<rightharpoonup> bytes) \<Rightarrow> bytes"

text \<open>
  The factory after Start: both tries exist. \<open>trieDB\<close> holds the entries that the
  factory itself puts into the key-value store \<open>accountTrie.TrieDB()\<close>, addressed by
  namespace and key.
\<close>

record factory =
  currentChainHeight :: uint64
  numCandidates :: uint64
  cachedCandidates :: "(string \<times> Candidate) list"
  cachedAccount :: "(string \<times> State) list"
  cachedContract :: "(bytes \<times> Contract) list"
  accountTrie :: trie
  candidateTrie :: trie
  trieDB :: "(string \<times> string) \<rightharpoonup> bytes"

definition CurrentHeightKey :: string where
  "CurrentHeightKey = ''currentHeight''"

definition AccountTrieRootKey :: string where
  "AccountTrieRootKey = ''accountTrieRoot''"

definition CandidateTrieRootKey :: string where
  "CandidateTrieRootKey = ''candidateTrieRoot''"

text \<open>The namespaces trie.AccountKVNameSpace and trie.CandidateKVNameSpace (absent
  constants; only their being different matters).\<close>

definition AccountKVNameSpace :: string where
  "AccountKVNameSpace = ''Account''"

definition CandidateKVNameSpace :: string where
  "CandidateKVNameSpace = ''Candidate''"

definition ZeroHash32B :: bytes where
  "ZeroHash32B = replicate 32 0"

subsection \<open>State/Account functions\<close>

text \<open>
  Modelled from the spec: State.SubBalance and State.AddBalance (state/state.go, absent):
  "Subtract amount from sender balance (must not go negative)", "Load recipient; add
  amount".
\<close>

definition SubBalance :: "State \<Rightarrow> int \<Rightarrow> error + State" where
  "SubBalance st amount =
     (if amount > Balance st then Inl ErrNotEnoughBalance
      else Inr (st\<lparr>Balance := Balance st - amount\<rparr>))"

definition AddBalance :: "State \<Rightarrow> int \<Rightarrow> error + State" where
  "AddBalance st amount = Inr (st\<lparr>Balance := Balance st + amount\<rparr>)"

definition getState :: "env \<Rightarrow> factory \<Rightarrow> bytes \<Rightarrow> error + State" where
  "getState E sf h =
     (case trieGet (accountTrie sf) h of
        Inl e \<Rightarrow> (if e = ErrNotExist then Inl ErrAccountNotExist else Inl e)
      | Inr mstate \<Rightarrow> bytesToState E mstate)"

definition putState :: "env \<Rightarrow> State \<Rightarrow> bytes \<Rightarrow> factory \<Rightarrow> (error + unit) \<times> factory" where
  "putState E state addr sf =
     (case stateToBytes E state of
        Inl e \<Rightarrow> (Inl e, sf)
      | Inr ss \<Rightarrow> (Inr (), sf\<lparr>accountTrie := trieUpsert (accountTrie sf) addr ss\<rparr>))"

text \<open>A write through the pointer held in \<open>cachedAccount[addr]\<close>, or the assignment
  \<open>cachedAccount[addr] = state\<close>.\<close>

definition setAccount :: "string \<Rightarrow> State \<Rightarrow> factory \<Rightarrow> factory" where
  "setAccount addr state sf = sf\<lparr>cachedAccount := AList.update addr state (cachedAccount sf)\<rparr>"

definition newState :: "uint64 \<Rightarrow> State" where
  "newState init =
     \<lparr>Nonce = 0, Balance = uint init, Root = ZeroHash32B, CodeHash = [],
      IsCandidate = False, VotingWeight = 0, Votee = []\<rparr>"

definition LoadOrCreateState ::
  "env \<Rightarrow> string \<Rightarrow> uint64 \<Rightarrow> factory \<Rightarrow> (error + State) \<times> factory" where
  "LoadOrCreateState E addr init sf =
     (case GetPubkeyHash E addr of
        Inl e \<Rightarrow> (Inl e, sf)
      | Inr pkHash \<Rightarrow>
          (case map_of (cachedAccount sf) addr of
             Some state \<Rightarrow> (Inr state, sf)
           | None \<Rightarrow>
               (case getState E sf (BytesTo20B E pkHash) of
                  Inl e \<Rightarrow>
                    (if e = ErrAccountNotExist
                     then (Inr (newState init), setAccount addr (newState init) sf)
                     else (Inl e, sf))
                | Inr state \<Rightarrow> (Inr state, setAccount addr state sf))))"

text \<open>The method State (the name State is the record's).\<close>

definition StateOf :: "env \<Rightarrow> string \<Rightarrow> factory \<Rightarrow> error + State" where
  "StateOf E addr sf =
     (case GetPubkeyHash E addr of
        Inl e \<Rightarrow> Inl e
      | Inr pkHash \<Rightarrow> getState E sf (BytesTo20B E pkHash))"

subsection \<open>Transfers\<close>

text \<open>The sender's half of the loop body of handleTsf (the block under
  \<open>if !tx.IsCoinbase\<close>).\<close>

definition handleTsf_sender :: "env \<Rightarrow> Transfer \<Rightarrow> factory \<Rightarrow> (error + unit) \<times> factory" where
  "handleTsf_sender E tx sf =
     (case LoadOrCreateState E (Sender tx) 0 sf of
        (Inl e, sf1) \<Rightarrow> (Inl e, sf1)
      | (Inr sender, sf1) \<Rightarrow>
          if Amount tx > Balance sender then (Inl ErrNotEnoughBalance, sf1)
          else
            (case SubBalance sender (Amount tx) of
               Inl e \<Rightarrow> (Inl e, sf1)
             | Inr sender1 \<Rightarrow>
                 let sender2 = (if TsfNonce tx > Nonce sender1
                                then sender1\<lparr>Nonce := TsfNonce tx\<rparr> else sender1);
                     sf2 = setAccount (Sender tx) sender2 sf1
                 in if length (Votee sender2) > 0 \<and> Votee sender2 \<noteq> Sender tx
                    then
                      (case LoadOrCreateState E (Votee sender2) 0 sf2 of
                         (Inl e, sf3) \<Rightarrow> (Inl e, sf3)
                       | (Inr voteeOfSender, sf3) \<Rightarrow>
                           (Inr (), setAccount (Votee sender2)
                              (voteeOfSender\<lparr>VotingWeight :=
                                 VotingWeight voteeOfSender - Amount tx\<rparr>) sf3))
                    else (Inr (), sf2)))"

text \<open>The recipient's half of the loop body.\<close>

definition handleTsf_recipient :: "env \<Rightarrow> Transfer \<Rightarrow> factory \<Rightarrow> (error + unit) \<times> factory" where
  "handleTsf_recipient E tx sf =
     (case LoadOrCreateState E (Recipient tx) 0 sf of
        (Inl e, sf1) \<Rightarrow> (Inl e, sf1)
      | (Inr recipient, sf1) \<Rightarrow>
          (case AddBalance recipient (Amount tx) of
             Inl e \<Rightarrow> (Inl e, sf1)
           | Inr recipient1 \<Rightarrow>
               let sf2 = setAccount (Recipient tx) recipient1 sf1
               in if length (Votee recipient1) > 0 \<and> Votee recipient1 \<noteq> Recipient tx
                  then
                    (case LoadOrCreateState E (Votee recipient1) 0 sf2 of
                       (Inl e, sf3) \<Rightarrow> (Inl e, sf3)
                     | (Inr voteeOfRecipient, sf3) \<Rightarrow>
                         (Inr (), setAccount (Votee recipient1)
                            (voteeOfRecipient\<lparr>VotingWeight :=
                               VotingWeight voteeOfRecipient + Amount tx\<rparr>) sf3))
                  else (Inr (), sf2)))"

text \<open>One iteration of the loop of handleTsf.\<close>

definition handleTsf_iter :: "env \<Rightarrow> Transfer \<Rightarrow> factory \<Rightarrow> (error + unit) \<times> factory" where
  "handleTsf_iter E tx sf =
     (if IsContract tx then (Inr (), sf)
      else
        (case (if \<not> IsCoinbase tx then handleTsf_sender E tx sf else (Inr (), sf)) of
           (Inl e, sf1) \<Rightarrow> (Inl e, sf1)
         | (Inr _, sf1) \<Rightarrow> handleTsf_recipient E tx sf1))"

fun handleTsf :: "env \<Rightarrow> Transfer list \<Rightarrow> factory \<Rightarrow> (error + unit) \<times> factory" where
  "handleTsf E [] sf = (Inr (), sf)"
| "handleTsf E (tx # tsf) sf =
     (case handleTsf_iter E tx sf of
        (Inl e, sf1) \<Rightarrow> (Inl e, sf1)
      | (Inr _, sf1) \<Rightarrow> handleTsf E tsf sf1)"

text \<open>
  The account record that the appliers see at an address: the cached record, else the
  record decoded from the account trie, else a new record; \<open>None\<close> where the address
  or the stored bytes do not decode.
\<close>

definition account :: "env \<Rightarrow> factory \<Rightarrow> string \<Rightarrow> State option" where
  "account E sf a =
     (case fst (LoadOrCreateState E a 0 sf) of Inl e \<Rightarrow> None | Inr s \<Rightarrow> Some s)"

subsection \<open>Votes\<close>

text \<open>The loop body of handleVote in three parts. \<open>voteFrom\<close> is the pointer
  \<open>cachedAccount[voterAddress]\<close>; each assignment through it is written to that entry
  at once, so that a later failing return keeps it, as in Go. The first part (lines
  662-671, "Update old votee's weight") returns the record behind \<open>voteFrom\<close> as it
  leaves it.\<close>

definition handleVote_revoke ::
  "env \<Rightarrow> string \<Rightarrow> State \<Rightarrow> factory \<Rightarrow> (error + State) \<times> factory" where
  "handleVote_revoke E voterAddress voteFrom sf =
     (if length (Votee voteFrom) > 0 \<and> Votee voteFrom \<noteq> voterAddress
      then
        (case LoadOrCreateState E (Votee voteFrom) 0 sf of
           (Inl e, sf1) \<Rightarrow> (Inl e, sf1)
         | (Inr oldVotee, sf1) \<Rightarrow>
             (Inr (voteFrom\<lparr>Votee := []\<rparr>),
              setAccount voterAddress (voteFrom\<lparr>Votee := []\<rparr>)
                (setAccount (Votee voteFrom)
                   (oldVotee\<lparr>VotingWeight := VotingWeight oldVotee - Balance voteFrom\<rparr>)
                   sf1)))
      else (Inr voteFrom, sf))"

text \<open>Lines 673-700: the unvote, the vote for another address and the vote for oneself.\<close>

definition handleVote_cast ::
  "env \<Rightarrow> uint64 \<Rightarrow> Vote \<Rightarrow> State \<Rightarrow> factory \<Rightarrow> (error + unit) \<times> factory" where
  "handleVote_cast E blockHeight v voteFrom sf =
     (let voterAddress = VoterAddress v; voteeAddress = VoteeAddress v in
      if voteeAddress = []
      then (Inr (), setAccount voterAddress (voteFrom\<lparr>IsCandidate := False\<rparr>) sf)
      else
        (case LoadOrCreateState E voteeAddress 0 sf of
           (Inl e, sf1) \<Rightarrow> (Inl e, sf1)
         | (Inr voteTo, sf1) \<Rightarrow>
             if voterAddress \<noteq> voteeAddress
             then
               (Inr (),
                setAccount voterAddress (voteFrom\<lparr>Votee := voteeAddress\<rparr>)
                  (setAccount voteeAddress
                     (voteTo\<lparr>VotingWeight := VotingWeight voteTo + Balance voteFrom\<rparr>)
                     sf1))
             else
               let sf2 = setAccount voterAddress
                           (voteFrom\<lparr>Votee := voterAddress, IsCandidate := True\<rparr>) sf1
               in if map_of (cachedCandidates sf2) voterAddress = None
                  then (Inr (), sf2\<lparr>cachedCandidates :=
                          AList.update voterAddress
                            \<lparr>Address = voterAddress, Votes = None,
                             PubKey = SelfPubkey v, CreationHeight = blockHeight,
                             LastUpdateHeight = 0\<rparr>
                            (cachedCandidates sf2)\<rparr>)
                  else (Inr (), sf2)))"

text \<open>One iteration of the loop of handleVote.\<close>

definition handleVote_iter ::
  "env \<Rightarrow> uint64 \<Rightarrow> Vote \<Rightarrow> factory \<Rightarrow> (error + unit) \<times> factory" where
  "handleVote_iter E blockHeight v sf =
     (case LoadOrCreateState E (VoterAddress v) 0 sf of
        (Inl e, sf1) \<Rightarrow> (Inl e, sf1)
      | (Inr voteFrom, sf1) \<Rightarrow>
          let voteFrom1 = (if VoteNonce v > Nonce voteFrom
                           then voteFrom\<lparr>Nonce := VoteNonce v\<rparr> else voteFrom);
              sf2 = setAccount (VoterAddress v) voteFrom1 sf1
          in
          case handleVote_revoke E (VoterAddress v) voteFrom1 sf2 of
            (Inl e, sf3) \<Rightarrow> (Inl e, sf3)
          | (Inr voteFrom2, sf3) \<Rightarrow> handleVote_cast E blockHeight v voteFrom2 sf3)"

fun handleVote :: "env \<Rightarrow> uint64 \<Rightarrow> Vote list \<Rightarrow> factory \<Rightarrow> (error + unit) \<times> factory" where
  "handleVote E blockHeight [] sf = (Inr (), sf)"
| "handleVote E blockHeight (v # vote) sf =
     (case handleVote_iter E blockHeight v sf of
        (Inl e, sf1) \<Rightarrow> (Inl e, sf1)
      | (Inr _, sf1) \<Rightarrow> handleVote E blockHeight vote sf1)"

subsection \<open>Contracts\<close>

definition getContract :: "env \<Rightarrow> bytes \<Rightarrow> factory \<Rightarrow> (error + Contract) \<times> factory" where
  "getContract E addr sf =
     (case map_of (cachedContract sf) addr of
        Some contract \<Rightarrow> (Inr contract, sf)
      | None \<Rightarrow>
          (case getState E sf addr of
             Inl e \<Rightarrow> (Inl e, sf)
           | Inr state \<Rightarrow>
               if \<not> isContract E state then (Inl ErrNotContract, sf)
               else
                 (case NewTrie E (Root state) of
                    Inl e \<Rightarrow> (Inl e, sf)
                  | Inr tr \<Rightarrow>
                      let contract = \<lparr>SelfState = state, storage = tr\<rparr>
                      in (Inr contract,
                          sf\<lparr>cachedContract := AList.update addr contract (cachedContract sf)\<rparr>))))"

definition CachedState :: "env \<Rightarrow> string \<Rightarrow> factory \<Rightarrow> (error + State) \<times> factory" where
  "CachedState E addr sf =
     (case GetPubkeyHash E addr of
        Inl e \<Rightarrow> (Inl e, sf)
      | Inr pkHash \<Rightarrow>
          (case getContract E (BytesTo20B E pkHash) sf of
             (Inr contract, sf1) \<Rightarrow> (Inr (SelfState contract), sf1)
           | (Inl _, sf1) \<Rightarrow>
               (case map_of (cachedAccount sf1) addr of
                  Some state \<Rightarrow> (Inr state, sf1)
                | None \<Rightarrow>
                    (case getState E sf1 (BytesTo20B E pkHash) of
                       Inl e \<Rightarrow> (Inl e, sf1)
                     | Inr state \<Rightarrow> (Inr state, setAccount addr state sf1)))))"

text \<open>
  Modelled from the spec: Contract.Commit (state/contract.go, absent): "each cached
  contract flushes its storage trie, recomputes its root".
\<close>

definition ContractCommit :: "env \<Rightarrow> Contract \<Rightarrow> error + Contract" where
  "ContractCommit E c =
     Inr (c\<lparr>storage := trieCommit (storage c),
            SelfState := (SelfState c)\<lparr>Root := hashOf E (nodes (storage c))\<rparr>\<rparr>)"

subsection \<open>Heights as bytes, root hash, height\<close>

text \<open>
  Modelled from the spec: byteutil.Uint64ToBytes and byteutil.BytesToUint64 (absent):
  "8-byte big-endian". Reading fewer than eight bytes is Go's index panic.
\<close>

definition Uint64ToBytes :: "uint64 \<Rightarrow> bytes" where
  "Uint64ToBytes h = map (\<lambda>i. ucast (drop_bit (8 * i) h)) [7, 6, 5, 4, 3, 2, 1, 0]"

definition BytesToUint64 :: "bytes \<Rightarrow> error + uint64" where
  "BytesToUint64 b =
     (if length b < 8 then Inl Panic
      else Inr (foldl (\<lambda>acc x. or (push_bit 8 acc) (ucast x)) 0 (take 8 b)))"

definition RootHash :: "env \<Rightarrow> factory \<Rightarrow> bytes" where
  "RootHash E sf = hashOf E (nodes (accountTrie sf))"

definition Height :: "factory \<Rightarrow> error + uint64" where
  "Height sf =
     (case trieDB sf (AccountKVNameSpace, CurrentHeightKey) of
        None \<Rightarrow> Inl ErrNotExist
      | Some height \<Rightarrow> BytesToUint64 height)"

subsection \<open>Candidates\<close>

text \<open>
  Modelled from the spec: MapToCandidates and CandidatesToMap (state/candidate.go,
  absent), the list of the pool's records in the order the map is ranged over, and the
  map that keys each record of a list by its address. The spec names no failure.
\<close>

definition MapToCandidates :: "(string \<times> Candidate) list \<Rightarrow> error + Candidate list" where
  "MapToCandidates candidateMap = Inr (map snd candidateMap)"

definition CandidatesToMap :: "Candidate list \<Rightarrow> error + (string \<times> Candidate) list" where
  "CandidatesToMap candidates =
     Inr (fold (\<lambda>candidate m. AList.update (Address candidate) candidate m) candidates [])"

text \<open>
  Modelled from the spec: the order of CandidateList (Len/Less/Swap of
  state/candidate.go, absent): "totally ordered by (votes desc, creation_height asc,
  address asc)". Strings compare bytewise, as Go's do.
\<close>

definition candidateKey :: "Candidate \<Rightarrow> int \<times> uint64 \<times> string" where
  "candidateKey c = (- the (Votes c), CreationHeight c, Address c)"

definition sortedCandidates :: "Candidate list \<Rightarrow> bool" where
  "sortedCandidates cs = sorted (map candidateKey cs)"

text \<open>\<open>sort.Sort(candidates)\<close>: with two or more records every record is compared, and
  comparing a record whose Votes is nil dereferences a nil pointer. sort.Sort is not
  stable; the records of a map have different addresses, hence different keys, and the
  sorted list is then the same for every sorting algorithm.\<close>

definition sortCandidates :: "Candidate list \<Rightarrow> error + Candidate list" where
  "sortCandidates cs =
     (if 2 \<le> length cs \<and> None \<in> set (map Votes cs) then Inl Panic
      else Inr (sort_key candidateKey cs))"

text \<open>Candidates. The error of MapToCandidates is dropped and leaves the nil list.
  \<open>numCandidates\<close> is a Go uint (64 bits); \<open>int(sf.numCandidates)\<close> reads it as a
  signed number, and slicing beyond the length panics.\<close>

definition Candidates :: "factory \<Rightarrow> error + (uint64 \<times> Candidate list)" where
  "Candidates sf =
     (let candidates = (case MapToCandidates (cachedCandidates sf) of
                          Inl _ \<Rightarrow> [] | Inr cs \<Rightarrow> cs)
      in if int (length candidates) \<le> sint (numCandidates sf)
         then Inr (currentChainHeight sf, candidates)
         else
           (case sortCandidates candidates of
              Inl e \<Rightarrow> Inl e
            | Inr ordered \<Rightarrow>
                if unat (numCandidates sf) \<le> length ordered
                then Inr (currentChainHeight sf, take (unat (numCandidates sf)) ordered)
                else Inl Panic))"

definition getCandidates :: "env \<Rightarrow> factory \<Rightarrow> uint64 \<Rightarrow> error + Candidate list" where
  "getCandidates E sf height =
     (case trieGet (candidateTrie sf) (Uint64ToBytes height) of
        Inl e \<Rightarrow> Inl e
      | Inr candidatesBytes \<Rightarrow> Deserialize E candidatesBytes)"

definition CandidatesByHeight :: "env \<Rightarrow> factory \<Rightarrow> uint64 \<Rightarrow> error + Candidate list" where
  "CandidatesByHeight E sf height =
     (case getCandidates E sf height of
        Inl e \<Rightarrow> Inl e
      | Inr candidates \<Rightarrow>
          if int (length candidates) > sint (numCandidates sf)
          then (if unat (numCandidates sf) \<le> length candidates
                then Inr (take (unat (numCandidates sf)) candidates) else Inl Panic)
          else Inr candidates)"

text \<open>updateCandidate: the record is reached through the pointer found in the map; for a
  missing key the pointer is nil and the assignment panics.\<close>

definition updateCandidate ::
  "string \<Rightarrow> int \<Rightarrow> uint64 \<Rightarrow> factory \<Rightarrow> (error + unit) \<times> factory" where
  "updateCandidate address totalWeight blockHeight sf =
     (case map_of (cachedCandidates sf) address of
        None \<Rightarrow> (Inl Panic, sf)
      | Some candidate \<Rightarrow>
          (Inr (), sf\<lparr>cachedCandidates :=
             AList.update address
               (candidate\<lparr>Votes := Some totalWeight, LastUpdateHeight := blockHeight\<rparr>)
               (cachedCandidates sf)\<rparr>))"

subsection \<open>CommitStateChanges\<close>

text \<open>Lines 294-303: the candidate pool is read back from the candidate trie when it is
  empty. A failing CandidatesToMap has already assigned its nil map to the field.\<close>

definition recoverCandidates :: "env \<Rightarrow> uint64 \<Rightarrow> factory \<Rightarrow> (error + unit) \<times> factory" where
  "recoverCandidates E blockHeight sf =
     (if blockHeight > 0 \<and> length (cachedCandidates sf) = 0
      then
        (case getCandidates E sf (blockHeight - 1) of
           Inl e \<Rightarrow> (Inl e, sf)
         | Inr candidates \<Rightarrow>
             (case CandidatesToMap candidates of
                Inl e \<Rightarrow> (Inl e, sf\<lparr>cachedCandidates := []\<rparr>)
              | Inr m \<Rightarrow> (Inr (), sf\<lparr>cachedCandidates := m\<rparr>)))
      else (Inr (), sf))"

text \<open>Lines 312-333: the loop over cachedAccount, run over the entries in the order of
  the list. The error of GetPubkeyHash is dropped by the code; the nil slice it leaves is
  the empty key.\<close>

fun commitAccounts ::
  "env \<Rightarrow> uint64 \<Rightarrow> (string \<times> State) list \<Rightarrow> factory \<Rightarrow> (error + unit) \<times> factory" where
  "commitAccounts E blockHeight [] sf = (Inr (), sf)"
| "commitAccounts E blockHeight ((address, state) # rest) sf =
     (let addr = (case GetPubkeyHash E address of Inl _ \<Rightarrow> [] | Inr a \<Rightarrow> a) in
      case putState E state addr sf of
        (Inl e, sf1) \<Rightarrow> (Inl e, sf1)
      | (Inr _, sf1) \<Rightarrow>
          if \<not> IsCandidate state
          then commitAccounts E blockHeight rest
                 (sf1\<lparr>cachedCandidates := AList.delete address (cachedCandidates sf1)\<rparr>)
          else
            let totalWeight = 0 + VotingWeight state;
                totalWeight = (if Votee state = address then totalWeight + Balance state
                               else totalWeight)
            in case updateCandidate address totalWeight blockHeight sf1 of
                 (Inl e, sf2) \<Rightarrow> (Inl e, sf2)
               | (Inr _, sf2) \<Rightarrow> commitAccounts E blockHeight rest sf2)"

text \<open>Lines 334-344: the loop over cachedContract.\<close>

fun commitContracts ::
  "env \<Rightarrow> (bytes \<times> Contract) list \<Rightarrow> factory \<Rightarrow> (error + unit) \<times> factory" where
  "commitContracts E [] sf = (Inr (), sf)"
| "commitContracts E ((addr, contract) # rest) sf =
     (case ContractCommit E contract of
        Inl e \<Rightarrow> (Inl e, sf)
      | Inr contract1 \<Rightarrow>
          let sf1 = sf\<lparr>cachedContract := AList.update addr contract1 (cachedContract sf)\<rparr>;
              state = SelfState contract1
          in case putState E state addr sf1 of
               (Inl e, sf2) \<Rightarrow> (Inl e, sf2)
             | (Inr _, sf2) \<Rightarrow> commitContracts E rest sf2)"

text \<open>Lines 345-369: one iteration of the loop over the executions. The nonce is a
  uint64: the increment wraps around.\<close>

definition handleExecution_iter ::
  "env \<Rightarrow> Execution \<Rightarrow> factory \<Rightarrow> (error + unit) \<times> factory" where
  "handleExecution_iter E e sf =
     (let addr = (case GetPubkeyHash E (Executor e) of Inl _ \<Rightarrow> [] | Inr a \<Rightarrow> a) in
      case map_of (cachedAccount sf) (Executor e) of
        Some state \<Rightarrow>
          let state1 = state\<lparr>Nonce := Nonce state + 1\<rparr>;
              state2 = (if ExecNonce e > Nonce state1
                        then state1\<lparr>Nonce := ExecNonce e\<rparr> else state1)
          in putState E state2 addr (setAccount (Executor e) state2 sf)
      | None \<Rightarrow>
          (case getState E sf (BytesTo20B E addr) of
             Inl err \<Rightarrow> (Inl err, sf)
           | Inr state \<Rightarrow>
               let state1 = state\<lparr>Nonce := Nonce state + 1\<rparr>;
                   state2 = (if ExecNonce e > Nonce state1
                             then state1\<lparr>Nonce := ExecNonce e\<rparr> else state1)
               in putState E state2 addr sf))"

fun handleExecutions :: "env \<Rightarrow> Execution list \<Rightarrow> factory \<Rightarrow> (error + unit) \<times> factory" where
  "handleExecutions E [] sf = (Inr (), sf)"
| "handleExecutions E (e # executions) sf =
     (case handleExecution_iter E e sf of
        (Inl err, sf1) \<Rightarrow> (Inl err, sf1)
      | (Inr _, sf1) \<Rightarrow> handleExecutions E executions sf1)"

text \<open>Lines 370-407: both tries are committed, the candidate list is archived under the
  block height, and the two roots and the height are put into the key-value store.\<close>

definition persistCommit :: "env \<Rightarrow> uint64 \<Rightarrow> factory \<Rightarrow> (error + unit) \<times> factory" where
  "persistCommit E blockHeight sf =
     (let sf1 = sf\<lparr>accountTrie := trieCommit (accountTrie sf)\<rparr> in
      case MapToCandidates (cachedCandidates sf1) of
        Inl e \<Rightarrow> (Inl e, sf1)
      | Inr candidates \<Rightarrow>
          (case sortCandidates candidates of
             Inl e \<Rightarrow> (Inl e, sf1)
           | Inr candidates1 \<Rightarrow>
               (case Serialize E candidates1 of
                  Inl e \<Rightarrow> (Inl e, sf1)
                | Inr candidatesBytes \<Rightarrow>
                    let sf2 = sf1\<lparr>candidateTrie :=
                                trieUpsert (candidateTrie sf1) (Uint64ToBytes blockHeight)
                                  candidatesBytes\<rparr>;
                        sf3 = sf2\<lparr>candidateTrie := trieCommit (candidateTrie sf2)\<rparr>;
                        accountRootHash = RootHash E sf3;
                        sf4 = sf3\<lparr>trieDB := (trieDB sf3)
                                ((AccountKVNameSpace, AccountTrieRootKey) \<mapsto> accountRootHash)\<rparr>;
                        candidateRootHash = hashOf E (nodes (candidateTrie sf4));
                        sf5 = sf4\<lparr>trieDB := (trieDB sf4)
                                ((CandidateKVNameSpace, CandidateTrieRootKey) \<mapsto>
                                   candidateRootHash)\<rparr>;
                        sf6 = sf5\<lparr>currentChainHeight := blockHeight\<rparr>
                    in (Inr (), sf6\<lparr>trieDB := (trieDB sf6)
                          ((AccountKVNameSpace, CurrentHeightKey) \<mapsto>
                             Uint64ToBytes blockHeight)\<rparr>))))"

definition CommitStateChanges ::
  "env \<Rightarrow> uint64 \<Rightarrow> Transfer list \<Rightarrow> Vote list \<Rightarrow> Execution list \<Rightarrow> factory
     \<Rightarrow> (error + unit) \<times> factory" where
  "CommitStateChanges E blockHeight tsf vote executions sf =
     (case recoverCandidates E blockHeight sf of
        (Inl e, sf1) \<Rightarrow> (Inl e, sf1)
      | (Inr _, sf1) \<Rightarrow>
     (case handleTsf E tsf sf1 of
        (Inl e, sf2) \<Rightarrow> (Inl e, sf2)
      | (Inr _, sf2) \<Rightarrow>
     (case handleVote E blockHeight vote sf2 of
        (Inl e, sf3) \<Rightarrow> (Inl e, sf3)
      | (Inr _, sf3) \<Rightarrow>
     (case commitAccounts E blockHeight (cachedAccount sf3) sf3 of
        (Inl e, sf4) \<Rightarrow> (Inl e, sf4)
      | (Inr _, sf4) \<Rightarrow>
     (case commitContracts E (cachedContract sf4) sf4 of
        (Inl e, sf5) \<Rightarrow> (Inl e, sf5)
      | (Inr _, sf5) \<Rightarrow>
     (case handleExecutions E executions sf5 of
        (Inl e, sf6) \<Rightarrow> (Inl e, sf6)
      | (Inr _, sf6) \<Rightarrow> persistCommit E blockHeight sf6))))))"

subsection \<open>Sample data\<close>

text \<open>A small environment and a few factories on which the theorems below are run.
  Addresses decode to their own bytes, the empty address is invalid, and the sample
  codecs keep the nonce of a record and the addresses of a candidate list.\<close>

definition E0 :: env where
  "E0 = \<lparr>GetPubkeyHash = (\<lambda>a. if a = [] then Inl ErrInvalidAddress else Inr (map of_char a)),
         BytesTo20B = (\<lambda>b. b),
         stateToBytes = (\<lambda>s. Inr [ucast (Nonce s)]),
         bytesToState = (\<lambda>b. case b of [] \<Rightarrow> Inl ErrFailedToUnmarshalState
                                | x # _ \<Rightarrow> Inr ((newState 0)\<lparr>Nonce := ucast x\<rparr>)),
         Serialize = (\<lambda>cs. Inr (concat (map (\<lambda>c. map of_char (Address c) @ [0]) cs))),
         Deserialize = (\<lambda>b. Inr []),
         isContract = (\<lambda>s. Root s \<noteq> ZeroHash32B),
         NewTrie = (\<lambda>r. Inr \<lparr>nodes = Map.empty, flushed = Map.empty\<rparr>),
         hashOf = (\<lambda>m. case m [] of None \<Rightarrow> [] | Some v \<Rightarrow> v)\<rparr>"

definition emptyTrie :: trie where
  "emptyTrie = \<lparr>nodes = Map.empty, flushed = Map.empty\<rparr>"

text \<open>Account A holds 100 and has voted for E.\<close>

definition sfT :: factory where
  "sfT = \<lparr>currentChainHeight = 0, numCandidates = 2, cachedCandidates = [],
          cachedAccount =
            [(''A'', (newState 100)\<lparr>Votee := ''E''\<rparr>),
             (''E'', (newState 0)\<lparr>VotingWeight := 100\<rparr>)],
          cachedContract = [], accountTrie = emptyTrie, candidateTrie = emptyTrie,
          trieDB = Map.empty\<rparr>"

definition txT :: Transfer where
  "txT = \<lparr>TsfNonce = 1, Amount = 40, Sender = ''A'', Recipient = ''B'',
          IsCoinbase = False, IsContract = False\<rparr>"

text \<open>A votes for itself.\<close>

definition voteT :: Vote where
  "voteT = \<lparr>VoteNonce = 3, VoterAddress = ''A'', VoteeAddress = ''A'', SelfPubkey = [7]\<rparr>"

text \<open>C is a candidate that votes for itself and holds 50; D is in the pool with 70 votes.
  The pool is listed with C first.\<close>

definition sfC :: factory where
  "sfC = \<lparr>currentChainHeight = 4, numCandidates = 1,
          cachedCandidates =
            [(''C'', \<lparr>Address = ''C'', Votes = Some 50, PubKey = [], CreationHeight = 1,
                     LastUpdateHeight = 4\<rparr>),
             (''D'', \<lparr>Address = ''D'', Votes = Some 70, PubKey = [], CreationHeight = 2,
                     LastUpdateHeight = 4\<rparr>)],
          cachedAccount = [(''C'', (newState 50)\<lparr>IsCandidate := True, Votee := ''C''\<rparr>)],
          cachedContract = [], accountTrie = emptyTrie, candidateTrie = emptyTrie,
          trieDB = Map.empty\<rparr>"

text \<open>Scenario S2 of the spec: A has 10 and transfers 20 to B; the account trie already
  holds a record and the store a height.\<close>

definition sfO :: factory where
  "sfO = \<lparr>currentChainHeight = 0, numCandidates = 2, cachedCandidates = [],
          cachedAccount = [(''A'', newState 10)],
          cachedContract = [],
          accountTrie = \<lparr>nodes = [[65] \<mapsto> [0]], flushed = [[65] \<mapsto> [0]]\<rparr>,
          candidateTrie = emptyTrie,
          trieDB = [(AccountKVNameSpace, CurrentHeightKey) \<mapsto> Uint64ToBytes 0]\<rparr>"

definition txO :: Transfer where
  "txO = \<lparr>TsfNonce = 1, Amount = 20, Sender = ''A'', Recipient = ''B'',
          IsCoinbase = False, IsContract = False\<rparr>"

text \<open>An execution by A with nonce 1.\<close>

definition execT :: Execution where
  "execT = \<lparr>ExecNonce = 1, Executor = ''A''\<rparr>"

definition candC :: Candidate where
  "candC = \<lparr>Address = ''C'', Votes = Some 50, PubKey = [], CreationHeight = 1,
            LastUpdateHeight = 4\<rparr>"

definition candD :: Candidate where
  "candD = \<lparr>Address = ''D'', Votes = Some 70, PubKey = [], CreationHeight = 2,
            LastUpdateHeight = 4\<rparr>"

text \<open>A transfer of A with the largest nonce, and an execution by A.\<close>

definition txW :: Transfer where
  "txW = \<lparr>TsfNonce = - 1, Amount = 1, Sender = ''A'', Recipient = ''B'',
          IsCoinbase = False, IsContract = False\<rparr>"

definition execW :: Execution where
  "execW = \<lparr>ExecNonce = 0, Executor = ''A''\<rparr>"

section \<open>The account records seen by the appliers\<close>

lemma LoadOrCreateState_Inl:
  "LoadOrCreateState E a i sf = (Inl e, sf1) \<Longrightarrow> sf1 = sf"
  unfolding LoadOrCreateState_def
  by (simp split: sum.splits option.splits if_splits)
lemma LoadOrCreateState_Inr:
  assumes "LoadOrCreateState E a i sf = (Inr s, sf1)"
  shows "map_of (cachedAccount sf1) a = Some s"
    and "sf1 = sf \<or> (map_of (cachedAccount sf) a = None \<and> sf1 = setAccount a s sf)"
    and "\<exists>h. GetPubkeyHash E a = Inr h"
  using assms
  by (auto simp: LoadOrCreateState_def setAccount_def update_conv'
           split: sum.splits option.splits if_splits)

lemma account_setAccount:
  "GetPubkeyHash E a = Inr h \<Longrightarrow>
   account E (setAccount a s sf) b = (if b = a then Some s else account E sf b)"
  by (auto simp: account_def LoadOrCreateState_def setAccount_def update_conv' getState_def
           split: sum.splits option.splits if_splits)

lemma account_loaded:
  "LoadOrCreateState E a 0 sf = (Inr s, sf1) \<Longrightarrow> account E sf a = Some s"
  by (simp add: account_def)

lemma account_LoadOrCreateState:
  assumes "LoadOrCreateState E a 0 sf = (r, sf1)"
  shows "account E sf1 b = account E sf b"
proof (cases r)
  case (Inl e)
  with assms have "sf1 = sf" by (simp add: LoadOrCreateState_Inl)
  then show ?thesis by simp
next
  case (Inr s)
  with assms have L: "LoadOrCreateState E a 0 sf = (Inr s, sf1)" by simp
  from LoadOrCreateState_Inr(3)[OF L] obtain h where h: "GetPubkeyHash E a = Inr h" ..
  from LoadOrCreateState_Inr(2)[OF L] show ?thesis
  proof
    assume "sf1 = sf" then show ?thesis by simp
  next
    assume "map_of (cachedAccount sf) a = None \<and> sf1 = setAccount a s sf"
    then show ?thesis
      using account_setAccount[OF h, of s sf b] account_loaded[OF L] by simp
  qed
qed

section \<open>Transfers\<close>

lemma handleTsf_sender_unfold:
  assumes "LoadOrCreateState E (Sender tx) 0 sf = (Inr sender, sfa)"
    and "\<not> Amount tx > Balance sender"
  shows "handleTsf_sender E tx sf =
     (if Votee sender \<noteq> [] \<and> Votee sender \<noteq> Sender tx
      then (case LoadOrCreateState E (Votee sender) 0
                   (setAccount (Sender tx)
                      (sender\<lparr>Balance := Balance sender - Amount tx,
                              Nonce := max (Nonce sender) (TsfNonce tx)\<rparr>) sfa) of
              (Inl e, sf3) \<Rightarrow> (Inl e, sf3)
            | (Inr voteeOfSender, sf3) \<Rightarrow>
                (Inr (), setAccount (Votee sender)
                   (voteeOfSender\<lparr>VotingWeight := VotingWeight voteeOfSender - Amount tx\<rparr>) sf3))
      else (Inr (), setAccount (Sender tx)
                      (sender\<lparr>Balance := Balance sender - Amount tx,
                              Nonce := max (Nonce sender) (TsfNonce tx)\<rparr>) sfa))"
proof -
  have eq: "(if Nonce sender < TsfNonce tx
             then sender\<lparr>Balance := Balance sender - Amount tx, Nonce := TsfNonce tx\<rparr>
             else sender\<lparr>Balance := Balance sender - Amount tx\<rparr>)
        = sender\<lparr>Balance := Balance sender - Amount tx,
                 Nonce := max (Nonce sender) (TsfNonce tx)\<rparr>"
    by (auto simp: max_def)
  show ?thesis
    using assms
    by (cases "Nonce sender < TsfNonce tx")
       (auto simp: handleTsf_sender_def SubBalance_def Let_def max_def
             split: prod.splits sum.splits)
qed

lemma handleTsf_sender_effect:
  assumes run: "handleTsf_sender E tx sf = (Inr (), sf1)"
    and snd: "account E sf (Sender tx) = Some sender"
  shows "\<not> Amount tx > Balance sender \<and>
         account E sf1 a = map_option (\<lambda>s. s\<lparr>
            Balance := Balance s - (if a = Sender tx then Amount tx else 0),
            Nonce := (if a = Sender tx then max (Nonce s) (TsfNonce tx) else Nonce s),
            VotingWeight := VotingWeight s -
              (if Votee sender \<noteq> [] \<and> Votee sender \<noteq> Sender tx \<and> a = Votee sender
               then Amount tx else 0)\<rparr>) (account E sf a)"
proof -
  obtain r sfa where L0: "LoadOrCreateState E (Sender tx) 0 sf = (r, sfa)"
    by (cases "LoadOrCreateState E (Sender tx) 0 sf") auto
  with snd have r: "r = Inr sender"
    by (simp add: account_def split: sum.splits)
  with L0 have L: "LoadOrCreateState E (Sender tx) 0 sf = (Inr sender, sfa)" by simp
  from LoadOrCreateState_Inr(3)[OF L] obtain h where h: "GetPubkeyHash E (Sender tx) = Inr h" ..
  have le: "\<not> Amount tx > Balance sender"
    using run L by (auto simp: handleTsf_sender_def split: if_splits)
  define sender2 where "sender2 = sender\<lparr>Balance := Balance sender - Amount tx,
                             Nonce := max (Nonce sender) (TsfNonce tx)\<rparr>"
  define sf2 where "sf2 = setAccount (Sender tx) sender2 sfa"
  have acc2: "\<And>b. account E sf2 b = (if b = Sender tx then Some sender2 else account E sf b)"
    unfolding sf2_def using account_setAccount[OF h] account_LoadOrCreateState[OF L] by simp
  note run' = run[unfolded handleTsf_sender_unfold[OF L le], folded sender2_def, folded sf2_def]
  show ?thesis
  proof (cases "Votee sender \<noteq> [] \<and> Votee sender \<noteq> Sender tx")
    case False
    with run' have "sf1 = sf2" by (simp split: if_splits)
    with acc2 snd False le show ?thesis
      by (cases "account E sf a") (auto simp: sender2_def)
  next
    case True
    obtain r3 sf3 where L3': "LoadOrCreateState E (Votee sender) 0 sf2 = (r3, sf3)"
      by (cases "LoadOrCreateState E (Votee sender) 0 sf2") auto
    with run' True obtain v where r3: "r3 = Inr v"
      and sf1: "sf1 = setAccount (Votee sender) (v\<lparr>VotingWeight := VotingWeight v - Amount tx\<rparr>) sf3"
      by (cases r3) auto
    from L3' r3 have L3: "LoadOrCreateState E (Votee sender) 0 sf2 = (Inr v, sf3)" by simp
    from LoadOrCreateState_Inr(3)[OF L3] obtain h3 where h3: "GetPubkeyHash E (Votee sender) = Inr h3" ..
    have v: "account E sf (Votee sender) = Some v"
      using account_loaded[OF L3] acc2 True by simp
    have acc1: "\<And>b. account E sf1 b =
        (if b = Votee sender then Some (v\<lparr>VotingWeight := VotingWeight v - Amount tx\<rparr>)
         else account E sf2 b)"
      unfolding sf1 using account_setAccount[OF h3] account_LoadOrCreateState[OF L3] by simp
    show ?thesis
      using acc1 acc2 snd v True le
      by (cases "account E sf a") (auto simp: sender2_def)
  qed
qed

lemma handleTsf_recipient_unfold:
  assumes "LoadOrCreateState E (Recipient tx) 0 sf = (Inr recipient, sfa)"
  shows "handleTsf_recipient E tx sf =
     (if Votee recipient \<noteq> [] \<and> Votee recipient \<noteq> Recipient tx
      then (case LoadOrCreateState E (Votee recipient) 0
                   (setAccount (Recipient tx)
                      (recipient\<lparr>Balance := Balance recipient + Amount tx\<rparr>) sfa) of
              (Inl e, sf3) \<Rightarrow> (Inl e, sf3)
            | (Inr voteeOfRecipient, sf3) \<Rightarrow>
                (Inr (), setAccount (Votee recipient)
                   (voteeOfRecipient\<lparr>VotingWeight :=
                      VotingWeight voteeOfRecipient + Amount tx\<rparr>) sf3))
      else (Inr (), setAccount (Recipient tx)
                      (recipient\<lparr>Balance := Balance recipient + Amount tx\<rparr>) sfa))"
  using assms
  by (auto simp: handleTsf_recipient_def AddBalance_def Let_def split: prod.splits sum.splits)

lemma handleTsf_recipient_effect:
  assumes run: "handleTsf_recipient E tx sf = (Inr (), sf1)"
  shows "\<exists>recipient. account E sf (Recipient tx) = Some recipient \<and>
         (\<forall>a. account E sf1 a = map_option (\<lambda>s. s\<lparr>
            Balance := Balance s + (if a = Recipient tx then Amount tx else 0),
            VotingWeight := VotingWeight s +
              (if Votee recipient \<noteq> [] \<and> Votee recipient \<noteq> Recipient tx \<and> a = Votee recipient
               then Amount tx else 0)\<rparr>) (account E sf a))"
proof -
  obtain r sfa where L0: "LoadOrCreateState E (Recipient tx) 0 sf = (r, sfa)"
    by (cases "LoadOrCreateState E (Recipient tx) 0 sf") auto
  with run obtain recipient where r: "r = Inr recipient"
    by (cases r) (auto simp: handleTsf_recipient_def)
  with L0 have L: "LoadOrCreateState E (Recipient tx) 0 sf = (Inr recipient, sfa)" by simp
  from LoadOrCreateState_Inr(3)[OF L] obtain h where h: "GetPubkeyHash E (Recipient tx) = Inr h" ..
  have rcp: "account E sf (Recipient tx) = Some recipient" by (rule account_loaded[OF L])
  define recipient1 where "recipient1 = recipient\<lparr>Balance := Balance recipient + Amount tx\<rparr>"
  define sf2 where "sf2 = setAccount (Recipient tx) recipient1 sfa"
  have acc2: "\<And>b. account E sf2 b = (if b = Recipient tx then Some recipient1 else account E sf b)"
    unfolding sf2_def using account_setAccount[OF h] account_LoadOrCreateState[OF L] by simp
  note run' = run[unfolded handleTsf_recipient_unfold[OF L], folded recipient1_def, folded sf2_def]
  have "account E sf1 a = map_option (\<lambda>s. s\<lparr>
            Balance := Balance s + (if a = Recipient tx then Amount tx else 0),
            VotingWeight := VotingWeight s +
              (if Votee recipient \<noteq> [] \<and> Votee recipient \<noteq> Recipient tx \<and> a = Votee recipient
               then Amount tx else 0)\<rparr>) (account E sf a)" for a
  proof (cases "Votee recipient \<noteq> [] \<and> Votee recipient \<noteq> Recipient tx")
    case False
    with run' have "sf1 = sf2" by (simp split: if_splits)
    with acc2 rcp False show ?thesis
      by (cases "account E sf a") (auto simp: recipient1_def)
  next
    case True
    obtain r3 sf3 where L3': "LoadOrCreateState E (Votee recipient) 0 sf2 = (r3, sf3)"
      by (cases "LoadOrCreateState E (Votee recipient) 0 sf2") auto
    with run' True obtain v where r3: "r3 = Inr v"
      and sf1: "sf1 = setAccount (Votee recipient)
                        (v\<lparr>VotingWeight := VotingWeight v + Amount tx\<rparr>) sf3"
      by (cases r3) auto
    from L3' r3 have L3: "LoadOrCreateState E (Votee recipient) 0 sf2 = (Inr v, sf3)" by simp
    from LoadOrCreateState_Inr(3)[OF L3] obtain h3
      where h3: "GetPubkeyHash E (Votee recipient) = Inr h3" ..
    have v: "account E sf (Votee recipient) = Some v"
      using account_loaded[OF L3] acc2 True by simp
    have acc1: "\<And>b. account E sf1 b =
        (if b = Votee recipient then Some (v\<lparr>VotingWeight := VotingWeight v + Amount tx\<rparr>)
         else account E sf2 b)"
      unfolding sf1 using account_setAccount[OF h3] account_LoadOrCreateState[OF L3] by simp
    show ?thesis
      using acc1 acc2 rcp v True
      by (cases "account E sf a") (auto simp: recipient1_def)
  qed
  with rcp show ?thesis by blast
qed

lemma handleTsf_sender_fail:
  assumes "account E sf (Sender tx) = Some sender" "Amount tx > Balance sender"
  shows "fst (handleTsf_sender E tx sf) = Inl ErrNotEnoughBalance"
proof -
  obtain r sfa where L0: "LoadOrCreateState E (Sender tx) 0 sf = (r, sfa)"
    by (cases "LoadOrCreateState E (Sender tx) 0 sf") auto
  with assms(1) have "r = Inr sender"
    by (simp add: account_def split: sum.splits)
  with L0 assms(2) show ?thesis by (simp add: handleTsf_sender_def)
qed

text \<open>
  Claim C1. A transfer marked as a contract call leaves the factory as it is. For a
  transfer that is neither a contract call nor a coinbase, with \<open>sender\<close> the record
  of the sender before the transfer: when the amount exceeds the sender's balance the
  iteration fails with ErrNotEnoughBalance; otherwise, when it succeeds, the record at every
  address is the old one with the nonce raised to the maximum of the old nonce and the
  transfer's at the sender, the amount taken from the balance at the sender and added at
  the recipient, taken from the voting weight at the sender's votee and added at the
  recipient's votee, each when that votee is non-empty and differs from its voter.
\<close>

theorem handleTsf_iter_spec:
  "(IsContract tx \<longrightarrow> handleTsf_iter E tx sf = (Inr (), sf)) \<and>
   (\<not> IsContract tx \<and> \<not> IsCoinbase tx \<and> account E sf (Sender tx) = Some sender \<longrightarrow>
      (Amount tx > Balance sender \<longrightarrow>
         fst (handleTsf_iter E tx sf) = Inl ErrNotEnoughBalance) \<and>
      (\<not> Amount tx > Balance sender \<and> handleTsf_iter E tx sf = (Inr (), sf') \<longrightarrow>
         (\<exists>recipient. account E sf (Recipient tx) = Some recipient \<and>
            (\<forall>a s. account E sf a = Some s \<longrightarrow>
               account E sf' a = Some (s\<lparr>
                 Nonce := (if a = Sender tx then max (Nonce s) (TsfNonce tx) else Nonce s),
                 Balance := Balance s - (if a = Sender tx then Amount tx else 0)
                                      + (if a = Recipient tx then Amount tx else 0),
                 VotingWeight := VotingWeight s
                    - (if Votee sender \<noteq> [] \<and> Votee sender \<noteq> Sender tx \<and> a = Votee sender
                       then Amount tx else 0)
                    + (if Votee recipient \<noteq> [] \<and> Votee recipient \<noteq> Recipient tx
                          \<and> a = Votee recipient
                       then Amount tx else 0)\<rparr>)))))"
proof (intro conjI impI)
  assume "IsContract tx"
  then show "handleTsf_iter E tx sf = (Inr (), sf)" by (simp add: handleTsf_iter_def)
next
  assume h: "\<not> IsContract tx \<and> \<not> IsCoinbase tx \<and> account E sf (Sender tx) = Some sender"
    and gt: "Amount tx > Balance sender"
  from handleTsf_sender_fail[OF _ gt] h
  have "fst (handleTsf_sender E tx sf) = Inl ErrNotEnoughBalance" by simp
  with h show "fst (handleTsf_iter E tx sf) = Inl ErrNotEnoughBalance"
    by (cases "handleTsf_sender E tx sf") (simp add: handleTsf_iter_def)
next
  assume h: "\<not> IsContract tx \<and> \<not> IsCoinbase tx \<and> account E sf (Sender tx) = Some sender"
    and ok: "\<not> Amount tx > Balance sender \<and> handleTsf_iter E tx sf = (Inr (), sf')"
  obtain r1 sf1 where S0: "handleTsf_sender E tx sf = (r1, sf1)"
    by (cases "handleTsf_sender E tx sf") auto
  with h ok have r1: "r1 = Inr ()" and R: "handleTsf_recipient E tx sf1 = (Inr (), sf')"
    by (cases r1; simp add: handleTsf_iter_def)+
  from S0 r1 have S: "handleTsf_sender E tx sf = (Inr (), sf1)" by simp
  from h have snd: "account E sf (Sender tx) = Some sender" by simp
  note se = handleTsf_sender_effect[OF S snd, THEN conjunct2]
  from handleTsf_recipient_effect[OF R] obtain rcp1 where
    rcp1: "account E sf1 (Recipient tx) = Some rcp1" and
    re: "\<And>a. account E sf' a = map_option (\<lambda>s. s\<lparr>
            Balance := Balance s + (if a = Recipient tx then Amount tx else 0),
            VotingWeight := VotingWeight s +
              (if Votee rcp1 \<noteq> [] \<and> Votee rcp1 \<noteq> Recipient tx \<and> a = Votee rcp1
               then Amount tx else 0)\<rparr>) (account E sf1 a)"
    by blast
  from rcp1 se[of "Recipient tx"]
  obtain recipient where rcp: "account E sf (Recipient tx) = Some recipient"
    and vr: "Votee rcp1 = Votee recipient"
    by (cases "account E sf (Recipient tx)") auto
  have "account E sf' a = Some (s\<lparr>
                 Nonce := (if a = Sender tx then max (Nonce s) (TsfNonce tx) else Nonce s),
                 Balance := Balance s - (if a = Sender tx then Amount tx else 0)
                                      + (if a = Recipient tx then Amount tx else 0),
                 VotingWeight := VotingWeight s
                    - (if Votee sender \<noteq> [] \<and> Votee sender \<noteq> Sender tx \<and> a = Votee sender
                       then Amount tx else 0)
                    + (if Votee recipient \<noteq> [] \<and> Votee recipient \<noteq> Recipient tx
                          \<and> a = Votee recipient
                       then Amount tx else 0)\<rparr>)" if a: "account E sf a = Some s" for a s
    unfolding re[of a] se[of a] a by (simp add: vr)
  with rcp show "\<exists>recipient. account E sf (Recipient tx) = Some recipient \<and>
            (\<forall>a s. account E sf a = Some s \<longrightarrow>
               account E sf' a = Some (s\<lparr>
                 Nonce := (if a = Sender tx then max (Nonce s) (TsfNonce tx) else Nonce s),
                 Balance := Balance s - (if a = Sender tx then Amount tx else 0)
                                      + (if a = Recipient tx then Amount tx else 0),
                 VotingWeight := VotingWeight s
                    - (if Votee sender \<noteq> [] \<and> Votee sender \<noteq> Sender tx \<and> a = Votee sender
                       then Amount tx else 0)
                    + (if Votee recipient \<noteq> [] \<and> Votee recipient \<noteq> Recipient tx
                          \<and> a = Votee recipient
                       then Amount tx else 0)\<rparr>))"
    by blast
qed

lemmas tsf_defs = handleTsf_iter_def handleTsf_sender_def handleTsf_recipient_def
  LoadOrCreateState_def SubBalance_def AddBalance_def setAccount_def getState_def trieGet_def
  newState_def account_def E0_def sfT_def txT_def emptyTrie_def Let_def

theorem handleTsf_iter_spec_witness:
  "\<not> IsContract txT \<and> \<not> IsCoinbase txT \<and>
   account E0 sfT (Sender txT) = Some ((newState 100)\<lparr>Votee := ''E''\<rparr>) \<and>
   \<not> Amount txT > Balance ((newState 100)\<lparr>Votee := ''E''\<rparr>) \<and>
   fst (handleTsf_iter E0 txT sfT) = Inr () \<and>
   map_option Balance (account E0 (snd (handleTsf_iter E0 txT sfT)) ''A'') = Some 60 \<and>
   map_option Nonce (account E0 (snd (handleTsf_iter E0 txT sfT)) ''A'') = Some 1 \<and>
   map_option Balance (account E0 (snd (handleTsf_iter E0 txT sfT)) ''B'') = Some 40 \<and>
   map_option VotingWeight (account E0 (snd (handleTsf_iter E0 txT sfT)) ''E'') = Some 60"
proof -
  have h1: "\<not> IsContract txT \<and> \<not> IsCoinbase txT \<and>
     account E0 sfT (Sender txT) = Some ((newState 100)\<lparr>Votee := ''E''\<rparr>)"
    by (simp add: tsf_defs)
  have h2: "\<not> Amount txT > Balance ((newState 100)\<lparr>Votee := ''E''\<rparr>)"
    by (simp add: tsf_defs)
  have h3: "fst (handleTsf_iter E0 txT sfT) = Inr ()"
    by (simp add: tsf_defs)
  then have h4: "handleTsf_iter E0 txT sfT = (Inr (), snd (handleTsf_iter E0 txT sfT))"
    by (cases "handleTsf_iter E0 txT sfT") simp
  have accs: "account E0 sfT ''A'' = Some ((newState 100)\<lparr>Votee := ''E''\<rparr>)"
     "account E0 sfT ''B'' = Some (newState 0)"
     "account E0 sfT ''E'' = Some ((newState 0)\<lparr>VotingWeight := 100\<rparr>)"
    by (simp_all add: tsf_defs)
  from handleTsf_iter_spec[of txT E0 sfT "(newState 100)\<lparr>Votee := ''E''\<rparr>"
         "snd (handleTsf_iter E0 txT sfT)"] h1 h2 h4
  obtain recipient where r: "account E0 sfT (Recipient txT) = Some recipient"
    and eff: "\<And>a s. account E0 sfT a = Some s \<Longrightarrow>
      account E0 (snd (handleTsf_iter E0 txT sfT)) a = Some (s\<lparr>
                 Nonce := (if a = Sender txT then max (Nonce s) (TsfNonce txT) else Nonce s),
                 Balance := Balance s - (if a = Sender txT then Amount txT else 0)
                                      + (if a = Recipient txT then Amount txT else 0),
                 VotingWeight := VotingWeight s
                    - (if Votee ((newState 100)\<lparr>Votee := ''E''\<rparr>) \<noteq> [] \<and> Votee ((newState 100)\<lparr>Votee := ''E''\<rparr>) \<noteq> Sender txT \<and> a = Votee ((newState 100)\<lparr>Votee := ''E''\<rparr>)
                       then Amount txT else 0)
                    + (if Votee recipient \<noteq> [] \<and> Votee recipient \<noteq> Recipient txT
                          \<and> a = Votee recipient
                       then Amount txT else 0)\<rparr>)"
    by blast
  from r accs(2) have rr: "recipient = newState 0" by (simp add: txT_def)
  show ?thesis
    using h1 h2 h3 eff[OF accs(1)] eff[OF accs(2)] eff[OF accs(3)]
    by (simp add: rr txT_def newState_def)
qed

section \<open>Votes\<close>

lemma cachedCandidates_setAccount:
  "cachedCandidates (setAccount a s sf) = cachedCandidates sf"
  by (simp add: setAccount_def)

lemma cachedCandidates_LoadOrCreateState:
  "LoadOrCreateState E a i sf = (r, sf1) \<Longrightarrow> cachedCandidates sf1 = cachedCandidates sf"
  by (cases r) (auto dest: LoadOrCreateState_Inl LoadOrCreateState_Inr(2)
                     simp: cachedCandidates_setAccount)

lemma account_cong:
  "cachedAccount sf' = cachedAccount sf \<Longrightarrow> accountTrie sf' = accountTrie sf \<Longrightarrow>
   account E sf' b = account E sf b"
  by (simp add: account_def LoadOrCreateState_def getState_def
           split: sum.splits option.splits)

lemma handleVote_revoke_effect:
  assumes run: "handleVote_revoke E va vf sf = (Inr vf2, sf4)"
    and vf: "account E sf va = Some vf"
    and h: "GetPubkeyHash E va = Inr h"
  shows "vf2 = vf\<lparr>Votee := (if Votee vf \<noteq> [] \<and> Votee vf \<noteq> va then [] else Votee vf)\<rparr>"
    and "account E sf4 b = map_option (\<lambda>s. s\<lparr>
            VotingWeight := VotingWeight s -
              (if Votee vf \<noteq> [] \<and> Votee vf \<noteq> va \<and> b = Votee vf then Balance vf else 0),
            Votee := (if b = va \<and> Votee vf \<noteq> [] \<and> Votee vf \<noteq> va then [] else Votee s)\<rparr>)
          (account E sf b)"
    and "cachedCandidates sf4 = cachedCandidates sf"
proof -
  show "vf2 = vf\<lparr>Votee := (if Votee vf \<noteq> [] \<and> Votee vf \<noteq> va then [] else Votee vf)\<rparr>"
    using run by (auto simp: handleVote_revoke_def split: if_splits prod.splits sum.splits)
  show "cachedCandidates sf4 = cachedCandidates sf"
    using run
    by (auto simp: handleVote_revoke_def cachedCandidates_setAccount
             dest: cachedCandidates_LoadOrCreateState
             split: if_splits prod.splits sum.splits)
  show "account E sf4 b = map_option (\<lambda>s. s\<lparr>
            VotingWeight := VotingWeight s -
              (if Votee vf \<noteq> [] \<and> Votee vf \<noteq> va \<and> b = Votee vf then Balance vf else 0),
            Votee := (if b = va \<and> Votee vf \<noteq> [] \<and> Votee vf \<noteq> va then [] else Votee s)\<rparr>)
          (account E sf b)"
  proof (cases "Votee vf \<noteq> [] \<and> Votee vf \<noteq> va")
    case False
    with run have "sf4 = sf" by (auto simp: handleVote_revoke_def)
    with False show ?thesis by (cases "account E sf b") auto
  next
    case True
    obtain r1 sf1 where L0: "LoadOrCreateState E (Votee vf) 0 sf = (r1, sf1)"
      by (cases "LoadOrCreateState E (Votee vf) 0 sf") auto
    with run True obtain old where r1: "r1 = Inr old"
      and sf4: "sf4 = setAccount va (vf\<lparr>Votee := []\<rparr>)
                (setAccount (Votee vf) (old\<lparr>VotingWeight := VotingWeight old - Balance vf\<rparr>) sf1)"
      by (cases r1) (auto simp: handleVote_revoke_def)
    from L0 r1 have L: "LoadOrCreateState E (Votee vf) 0 sf = (Inr old, sf1)" by simp
    from LoadOrCreateState_Inr(3)[OF L] obtain h1 where h1: "GetPubkeyHash E (Votee vf) = Inr h1" ..
    have old: "account E sf (Votee vf) = Some old" by (rule account_loaded[OF L])
    have "account E sf4 b = (if b = va then Some (vf\<lparr>Votee := []\<rparr>)
             else if b = Votee vf then Some (old\<lparr>VotingWeight := VotingWeight old - Balance vf\<rparr>)
             else account E sf b)"
      unfolding sf4 using account_setAccount[OF h] account_setAccount[OF h1]
        account_LoadOrCreateState[OF L] by simp
    then show ?thesis
      using True vf old by (cases "account E sf b") auto
  qed
qed

lemma handleVote_cast_effect:
  assumes run: "handleVote_cast E blockHeight v vf sf = (Inr (), sf')"
    and vf: "account E sf (VoterAddress v) = Some vf"
    and h: "GetPubkeyHash E (VoterAddress v) = Inr h"
  shows "account E sf' b = map_option (\<lambda>s. s\<lparr>
            VotingWeight := VotingWeight s +
              (if VoteeAddress v \<noteq> [] \<and> VoteeAddress v \<noteq> VoterAddress v \<and> b = VoteeAddress v
               then Balance vf else 0),
            Votee := (if b = VoterAddress v \<and> VoteeAddress v \<noteq> [] then VoteeAddress v
                      else Votee s),
            IsCandidate := (if b = VoterAddress v
                            then (if VoteeAddress v = [] then False
                                  else if VoteeAddress v = VoterAddress v then True
                                  else IsCandidate s)
                            else IsCandidate s)\<rparr>)
          (account E sf b)"
    and "cachedCandidates sf' =
          (if VoteeAddress v \<noteq> [] \<and> VoteeAddress v = VoterAddress v \<and>
              map_of (cachedCandidates sf) (VoterAddress v) = None
           then AList.update (VoterAddress v)
                  \<lparr>Address = VoterAddress v, Votes = None, PubKey = SelfPubkey v,
                   CreationHeight = blockHeight, LastUpdateHeight = 0\<rparr>
                  (cachedCandidates sf)
           else cachedCandidates sf)"
proof -
  let ?goal1 = "account E sf' b = map_option (\<lambda>s. s\<lparr>
            VotingWeight := VotingWeight s +
              (if VoteeAddress v \<noteq> [] \<and> VoteeAddress v \<noteq> VoterAddress v \<and> b = VoteeAddress v
               then Balance vf else 0),
            Votee := (if b = VoterAddress v \<and> VoteeAddress v \<noteq> [] then VoteeAddress v
                      else Votee s),
            IsCandidate := (if b = VoterAddress v
                            then (if VoteeAddress v = [] then False
                                  else if VoteeAddress v = VoterAddress v then True
                                  else IsCandidate s)
                            else IsCandidate s)\<rparr>)
          (account E sf b)"
  let ?goal2 = "cachedCandidates sf' =
          (if VoteeAddress v \<noteq> [] \<and> VoteeAddress v = VoterAddress v \<and>
              map_of (cachedCandidates sf) (VoterAddress v) = None
           then AList.update (VoterAddress v)
                  \<lparr>Address = VoterAddress v, Votes = None, PubKey = SelfPubkey v,
                   CreationHeight = blockHeight, LastUpdateHeight = 0\<rparr>
                  (cachedCandidates sf)
           else cachedCandidates sf)"
  have "?goal1 \<and> ?goal2"
  proof (cases "VoteeAddress v = []")
    case True
    with run have sf': "sf' = setAccount (VoterAddress v) (vf\<lparr>IsCandidate := False\<rparr>) sf"
      by (simp add: handleVote_cast_def Let_def)
    have "account E sf' b = (if b = VoterAddress v then Some (vf\<lparr>IsCandidate := False\<rparr>)
                             else account E sf b)"
      unfolding sf' using account_setAccount[OF h] by simp
    with True vf show ?thesis
      by (cases "account E sf b") (auto simp: sf' cachedCandidates_setAccount)
  next
    case False
    obtain r1 sf1 where L0: "LoadOrCreateState E (VoteeAddress v) 0 sf = (r1, sf1)"
      by (cases "LoadOrCreateState E (VoteeAddress v) 0 sf") auto
    with run False obtain voteTo where r1: "r1 = Inr voteTo"
      by (cases r1) (auto simp: handleVote_cast_def Let_def)
    from L0 r1 have L: "LoadOrCreateState E (VoteeAddress v) 0 sf = (Inr voteTo, sf1)" by simp
    from LoadOrCreateState_Inr(3)[OF L] obtain h1
      where h1: "GetPubkeyHash E (VoteeAddress v) = Inr h1" ..
    have to: "account E sf (VoteeAddress v) = Some voteTo" by (rule account_loaded[OF L])
    note cc = cachedCandidates_LoadOrCreateState[OF L]
    show ?thesis
    proof (cases "VoterAddress v = VoteeAddress v")
      case diff: False
      with run False L
      have sf': "sf' = setAccount (VoterAddress v) (vf\<lparr>Votee := VoteeAddress v\<rparr>)
                  (setAccount (VoteeAddress v)
                     (voteTo\<lparr>VotingWeight := VotingWeight voteTo + Balance vf\<rparr>) sf1)"
        by (simp add: handleVote_cast_def Let_def)
      have "account E sf' b =
          (if b = VoterAddress v then Some (vf\<lparr>Votee := VoteeAddress v\<rparr>)
           else if b = VoteeAddress v
                then Some (voteTo\<lparr>VotingWeight := VotingWeight voteTo + Balance vf\<rparr>)
           else account E sf b)"
        unfolding sf' using account_setAccount[OF h] account_setAccount[OF h1]
          account_LoadOrCreateState[OF L] by simp
      with False diff vf to show ?thesis
        by (cases "account E sf b") (auto simp: sf' cachedCandidates_setAccount cc)
    next
      case same: True
      define sf2 where "sf2 = setAccount (VoterAddress v)
                           (vf\<lparr>Votee := VoterAddress v, IsCandidate := True\<rparr>) sf1"
      have cc2: "cachedCandidates sf2 = cachedCandidates sf"
        by (simp add: sf2_def cachedCandidates_setAccount cc)
      have acc2: "account E sf2 b =
          (if b = VoterAddress v then Some (vf\<lparr>Votee := VoterAddress v, IsCandidate := True\<rparr>)
           else account E sf b)"
        unfolding sf2_def using account_setAccount[OF h] account_LoadOrCreateState[OF L] by simp
      from run False L same
      have sf': "sf' = (if map_of (cachedCandidates sf2) (VoterAddress v) = None
                  then sf2\<lparr>cachedCandidates :=
                          AList.update (VoterAddress v)
                            \<lparr>Address = VoterAddress v, Votes = None,
                             PubKey = SelfPubkey v, CreationHeight = blockHeight,
                             LastUpdateHeight = 0\<rparr>
                            (cachedCandidates sf2)\<rparr>
                  else sf2)"
        by (auto simp: handleVote_cast_def sf2_def Let_def split: if_splits)
      have acc': "account E sf' b = account E sf2 b"
        unfolding sf' by (auto intro: account_cong)
      have g2: ?goal2 using False same by (auto simp: sf' cc2)
      from acc' acc2 False same vf have g1: ?goal1
        by (cases "account E sf b") auto
      from g1 g2 show ?thesis by (rule conjI)
    qed
  qed
  then show ?goal1 and ?goal2 by blast+
qed

lemma handleVote_iter_unfold:
  assumes "LoadOrCreateState E (VoterAddress v) 0 sf = (Inr voter, sfa)"
  shows "handleVote_iter E blockHeight v sf =
     (case handleVote_revoke E (VoterAddress v)
             (voter\<lparr>Nonce := max (Nonce voter) (VoteNonce v)\<rparr>)
             (setAccount (VoterAddress v)
                (voter\<lparr>Nonce := max (Nonce voter) (VoteNonce v)\<rparr>) sfa) of
        (Inl e, sf3) \<Rightarrow> (Inl e, sf3)
      | (Inr voteFrom2, sf3) \<Rightarrow> handleVote_cast E blockHeight v voteFrom2 sf3)"
proof -
  have "(if Nonce voter < VoteNonce v then voter\<lparr>Nonce := VoteNonce v\<rparr> else voter)
        = voter\<lparr>Nonce := max (Nonce voter) (VoteNonce v)\<rparr>"
    by (auto simp: max_def)
  with assms show ?thesis
    by (simp add: handleVote_iter_def Let_def)
qed

lemma handleVote_iter_effect:
  "account E sf (VoterAddress v) = Some voter \<and>
   handleVote_iter E blockHeight v sf = (Inr (), sf') \<longrightarrow>
   (\<forall>a s. account E sf a = Some s \<longrightarrow>
      account E sf' a = Some (s\<lparr>
        Nonce := (if a = VoterAddress v then max (Nonce s) (VoteNonce v) else Nonce s),
        VotingWeight := VotingWeight s
          - (if Votee voter \<noteq> [] \<and> Votee voter \<noteq> VoterAddress v \<and> a = Votee voter
             then Balance voter else 0)
          + (if VoteeAddress v \<noteq> [] \<and> VoteeAddress v \<noteq> VoterAddress v \<and> a = VoteeAddress v
             then Balance voter else 0),
        Votee := (if a = VoterAddress v
                  then (if VoteeAddress v \<noteq> [] then VoteeAddress v
                        else if Votee voter \<noteq> [] \<and> Votee voter \<noteq> VoterAddress v then []
                        else Votee s)
                  else Votee s),
        IsCandidate := (if a = VoterAddress v
                        then (if VoteeAddress v = [] then False
                              else if VoteeAddress v = VoterAddress v then True
                              else IsCandidate s)
                        else IsCandidate s)\<rparr>)) \<and>
   cachedCandidates sf' =
     (if VoteeAddress v \<noteq> [] \<and> VoteeAddress v = VoterAddress v \<and>
         map_of (cachedCandidates sf) (VoterAddress v) = None
      then AList.update (VoterAddress v)
             \<lparr>Address = VoterAddress v, Votes = None, PubKey = SelfPubkey v,
              CreationHeight = blockHeight, LastUpdateHeight = 0\<rparr>
             (cachedCandidates sf)
      else cachedCandidates sf)"
proof (intro impI, elim conjE)
  assume voter: "account E sf (VoterAddress v) = Some voter"
    and run: "handleVote_iter E blockHeight v sf = (Inr (), sf')"
  obtain r sfa where L0: "LoadOrCreateState E (VoterAddress v) 0 sf = (r, sfa)"
    by (cases "LoadOrCreateState E (VoterAddress v) 0 sf") auto
  with voter have "r = Inr voter" by (simp add: account_def split: sum.splits)
  with L0 have L: "LoadOrCreateState E (VoterAddress v) 0 sf = (Inr voter, sfa)" by simp
  from LoadOrCreateState_Inr(3)[OF L] obtain h where h: "GetPubkeyHash E (VoterAddress v) = Inr h" ..
  define vf1 where "vf1 = voter\<lparr>Nonce := max (Nonce voter) (VoteNonce v)\<rparr>"
  define sf2 where "sf2 = setAccount (VoterAddress v) vf1 sfa"
  have acc2: "\<And>b. account E sf2 b = (if b = VoterAddress v then Some vf1 else account E sf b)"
    unfolding sf2_def using account_setAccount[OF h] account_LoadOrCreateState[OF L] by simp
  have cc2: "cachedCandidates sf2 = cachedCandidates sf"
    by (simp add: sf2_def cachedCandidates_setAccount cachedCandidates_LoadOrCreateState[OF L])
  note run' = run[unfolded handleVote_iter_unfold[OF L], folded vf1_def, folded sf2_def]
  obtain r3 sf3 where R0: "handleVote_revoke E (VoterAddress v) vf1 sf2 = (r3, sf3)"
    by (cases "handleVote_revoke E (VoterAddress v) vf1 sf2") auto
  with run' obtain vf2 where r3: "r3 = Inr vf2"
    and C: "handleVote_cast E blockHeight v vf2 sf3 = (Inr (), sf')"
    by (cases r3) auto
  from R0 r3 have R: "handleVote_revoke E (VoterAddress v) vf1 sf2 = (Inr vf2, sf3)" by simp
  have v1: "account E sf2 (VoterAddress v) = Some vf1" by (simp add: acc2)
  note rev = handleVote_revoke_effect[OF R v1 h]
  have v2: "account E sf3 (VoterAddress v) = Some vf2"
    unfolding rev(2)[of "VoterAddress v"] rev(1) v1 by auto
  note cast = handleVote_cast_effect[OF C v2 h]
  have bal: "Balance vf2 = Balance voter" "Balance vf1 = Balance voter"
    "Votee vf1 = Votee voter"
    by (simp_all add: rev(1) vf1_def)
  have cands: "cachedCandidates sf' =
     (if VoteeAddress v \<noteq> [] \<and> VoteeAddress v = VoterAddress v \<and>
         map_of (cachedCandidates sf) (VoterAddress v) = None
      then AList.update (VoterAddress v)
             \<lparr>Address = VoterAddress v, Votes = None, PubKey = SelfPubkey v,
              CreationHeight = blockHeight, LastUpdateHeight = 0\<rparr>
             (cachedCandidates sf)
      else cachedCandidates sf)"
    unfolding cast(2) rev(3) cc2 ..
  have accs: "account E sf' a = Some (s\<lparr>
        Nonce := (if a = VoterAddress v then max (Nonce s) (VoteNonce v) else Nonce s),
        VotingWeight := VotingWeight s
          - (if Votee voter \<noteq> [] \<and> Votee voter \<noteq> VoterAddress v \<and> a = Votee voter
             then Balance voter else 0)
          + (if VoteeAddress v \<noteq> [] \<and> VoteeAddress v \<noteq> VoterAddress v \<and> a = VoteeAddress v
             then Balance voter else 0),
        Votee := (if a = VoterAddress v
                  then (if VoteeAddress v \<noteq> [] then VoteeAddress v
                        else if Votee voter \<noteq> [] \<and> Votee voter \<noteq> VoterAddress v then []
                        else Votee s)
                  else Votee s),
        IsCandidate := (if a = VoterAddress v
                        then (if VoteeAddress v = [] then False
                              else if VoteeAddress v = VoterAddress v then True
                              else IsCandidate s)
                        else IsCandidate s)\<rparr>)" if a: "account E sf a = Some s" for a s
  proof (cases "a = VoterAddress v")
    case True
    with a voter have sv: "s = voter" by simp
    show ?thesis
      unfolding cast(1)[of a] rev(2)[of a] acc2[of a] bal
      using True by (simp add: sv vf1_def)
  next
    case False
    show ?thesis
      unfolding cast(1)[of a] rev(2)[of a] acc2[of a] bal
      using False a by simp
  qed
  from accs cands show "(\<forall>a s. account E sf a = Some s \<longrightarrow>
      account E sf' a = Some (s\<lparr>
        Nonce := (if a = VoterAddress v then max (Nonce s) (VoteNonce v) else Nonce s),
        VotingWeight := VotingWeight s
          - (if Votee voter \<noteq> [] \<and> Votee voter \<noteq> VoterAddress v \<and> a = Votee voter
             then Balance voter else 0)
          + (if VoteeAddress v \<noteq> [] \<and> VoteeAddress v \<noteq> VoterAddress v \<and> a = VoteeAddress v
             then Balance voter else 0),
        Votee := (if a = VoterAddress v
                  then (if VoteeAddress v \<noteq> [] then VoteeAddress v
                        else if Votee voter \<noteq> [] \<and> Votee voter \<noteq> VoterAddress v then []
                        else Votee s)
                  else Votee s),
        IsCandidate := (if a = VoterAddress v
                        then (if VoteeAddress v = [] then False
                              else if VoteeAddress v = VoterAddress v then True
                              else IsCandidate s)
                        else IsCandidate s)\<rparr>)) \<and>
   cachedCandidates sf' =
     (if VoteeAddress v \<noteq> [] \<and> VoteeAddress v = VoterAddress v \<and>
         map_of (cachedCandidates sf) (VoterAddress v) = None
      then AList.update (VoterAddress v)
             \<lparr>Address = VoterAddress v, Votes = None, PubKey = SelfPubkey v,
              CreationHeight = blockHeight, LastUpdateHeight = 0\<rparr>
             (cachedCandidates sf)
      else cachedCandidates sf)"
    by blast
qed

text \<open>
  Claim C2. For a vote whose iteration succeeds, with \<open>voter\<close> the voter's record
  before it: the record at every address is the old one with the nonce raised to the
  maximum of the old nonce and the vote's at the voter; the voter's balance taken from the
  voting weight of the previous votee when that votee is non-empty and differs from the
  voter, and added to the voting weight of the new votee when it is non-empty and differs
  from the voter; the voter's votee set to the new votee when that is non-empty, and
  otherwise cleared when a previous vote for another address was revoked; the voter's
  IsCandidate set to False by an empty votee, to True by a vote for oneself and left alone
  by a vote for another address. The candidate pool gains a record with the block height
  as CreationHeight exactly when the vote is for oneself and the voter is not in the pool.
\<close>

theorem handleVote_iter_spec:
  "account E sf (VoterAddress v) = Some voter \<and>
   handleVote_iter E blockHeight v sf = (Inr (), sf') \<longrightarrow>
   (\<forall>a s. account E sf a = Some s \<longrightarrow>
      account E sf' a = Some (s\<lparr>
        Nonce := (if a = VoterAddress v then max (Nonce s) (VoteNonce v) else Nonce s),
        VotingWeight := VotingWeight s
          - (if Votee voter \<noteq> [] \<and> Votee voter \<noteq> VoterAddress v \<and> a = Votee voter
             then Balance voter else 0)
          + (if VoteeAddress v \<noteq> [] \<and> VoteeAddress v \<noteq> VoterAddress v \<and> a = VoteeAddress v
             then Balance voter else 0),
        Votee := (if a = VoterAddress v
                  then (if VoteeAddress v \<noteq> [] then VoteeAddress v
                        else if Votee voter \<noteq> [] \<and> Votee voter \<noteq> VoterAddress v then []
                        else Votee s)
                  else Votee s),
        IsCandidate := (if a = VoterAddress v
                        then (if VoteeAddress v = [] then False
                              else if VoteeAddress v = VoterAddress v then True
                              else IsCandidate s)
                        else IsCandidate s)\<rparr>)) \<and>
   cachedCandidates sf' =
     (if VoteeAddress v \<noteq> [] \<and> VoteeAddress v = VoterAddress v \<and>
         map_of (cachedCandidates sf) (VoterAddress v) = None
      then AList.update (VoterAddress v)
             \<lparr>Address = VoterAddress v, Votes = None, PubKey = SelfPubkey v,
              CreationHeight = blockHeight, LastUpdateHeight = 0\<rparr>
             (cachedCandidates sf)
      else cachedCandidates sf)"
  by (rule handleVote_iter_effect)

lemmas vote_defs = handleVote_iter_def handleVote_revoke_def handleVote_cast_def
  LoadOrCreateState_def setAccount_def getState_def trieGet_def
  newState_def account_def E0_def sfT_def voteT_def emptyTrie_def Let_def

theorem handleVote_iter_spec_witness:
  "account E0 sfT (VoterAddress voteT) = Some ((newState 100)\<lparr>Votee := ''E''\<rparr>) \<and>
   fst (handleVote_iter E0 5 voteT sfT) = Inr () \<and>
   account E0 (snd (handleVote_iter E0 5 voteT sfT)) ''A'' =
     Some ((newState 100)\<lparr>Nonce := 3, Votee := ''A'', IsCandidate := True\<rparr>) \<and>
   account E0 (snd (handleVote_iter E0 5 voteT sfT)) ''E'' = Some (newState 0) \<and>
   cachedCandidates (snd (handleVote_iter E0 5 voteT sfT)) =
     [(''A'', \<lparr>Address = ''A'', Votes = None, PubKey = [7], CreationHeight = 5,
              LastUpdateHeight = 0\<rparr>)]"
proof -
  have h1: "account E0 sfT (VoterAddress voteT) = Some ((newState 100)\<lparr>Votee := ''E''\<rparr>)"
    by (simp add: vote_defs)
  have h3: "fst (handleVote_iter E0 5 voteT sfT) = Inr ()"
    by (simp add: vote_defs)
  then have h4: "handleVote_iter E0 5 voteT sfT = (Inr (), snd (handleVote_iter E0 5 voteT sfT))"
    by (cases "handleVote_iter E0 5 voteT sfT") simp
  have accs: "account E0 sfT ''A'' = Some ((newState 100)\<lparr>Votee := ''E''\<rparr>)"
     "account E0 sfT ''E'' = Some ((newState 0)\<lparr>VotingWeight := 100\<rparr>)"
    by (simp_all add: vote_defs)
  note spec = handleVote_iter_spec[of E0 sfT voteT "(newState 100)\<lparr>Votee := ''E''\<rparr>" 5
         "snd (handleVote_iter E0 5 voteT sfT)", rule_format, OF conjI, OF h1 h4]
  from spec[THEN conjunct1, rule_format, OF accs(1)]
       spec[THEN conjunct1, rule_format, OF accs(2)]
       spec[THEN conjunct2] h1 h3
  show ?thesis
    by (simp add: voteT_def newState_def sfT_def)
qed

section \<open>Commit: roots and height\<close>

lemma length_Uint64ToBytes: "length (Uint64ToBytes h) = 8"
  by (simp add: Uint64ToBytes_def)

lemma low_byte_or: "or (push_bit 8 (drop_bit 8 x)) (ucast (ucast x :: 8 word)) = (x :: uint64)"
  by (rule bit_word_eqI) (auto simp add: bit_simps)

lemma byte_step:
  "or (push_bit 8 (drop_bit (k + 8) h)) (ucast (ucast (drop_bit k h) :: 8 word))
   = (drop_bit k h :: uint64)"
  using low_byte_or[of "drop_bit k h"] by (simp add: drop_bit_drop_bit add.commute)

lemma BytesToUint64_Uint64ToBytes: "BytesToUint64 (Uint64ToBytes h) = Inr h"
proof -
  have e: "Uint64ToBytes h =
      [ucast (drop_bit 56 h), ucast (drop_bit 48 h), ucast (drop_bit 40 h),
       ucast (drop_bit 32 h), ucast (drop_bit 24 h), ucast (drop_bit 16 h),
       ucast (drop_bit 8 h), ucast (drop_bit 0 h)]"
    by (simp add: Uint64ToBytes_def)
  have z: "(0::uint64) = drop_bit 64 h" by simp
  have s: "or (push_bit 8 (drop_bit 64 h)) (ucast (ucast (drop_bit 56 h) :: 8 word)) = drop_bit 56 h"
    "or (push_bit 8 (drop_bit 56 h)) (ucast (ucast (drop_bit 48 h) :: 8 word)) = drop_bit 48 h"
    "or (push_bit 8 (drop_bit 48 h)) (ucast (ucast (drop_bit 40 h) :: 8 word)) = drop_bit 40 h"
    "or (push_bit 8 (drop_bit 40 h)) (ucast (ucast (drop_bit 32 h) :: 8 word)) = drop_bit 32 h"
    "or (push_bit 8 (drop_bit 32 h)) (ucast (ucast (drop_bit 24 h) :: 8 word)) = drop_bit 24 h"
    "or (push_bit 8 (drop_bit 24 h)) (ucast (ucast (drop_bit 16 h) :: 8 word)) = drop_bit 16 h"
    "or (push_bit 8 (drop_bit 16 h)) (ucast (ucast (drop_bit 8 h) :: 8 word)) = drop_bit 8 h"
    "or (push_bit 8 (drop_bit 8 h)) (ucast (ucast (drop_bit 0 h) :: 8 word)) = drop_bit 0 h"
    using byte_step[of 56 h] byte_step[of 48 h] byte_step[of 40 h] byte_step[of 32 h]
      byte_step[of 24 h] byte_step[of 16 h] byte_step[of 8 h] byte_step[of 0 h]
    by simp_all
  have "foldl (\<lambda>acc x. or (push_bit 8 acc) (ucast x)) (drop_bit 64 h) (Uint64ToBytes h)
        = drop_bit 0 h"
    unfolding e by (simp only: foldl.simps s)
  then have "foldl (\<lambda>acc x. or (push_bit 8 acc) (ucast x)) (0::uint64) (Uint64ToBytes h) = h"
    by simp
  then show ?thesis by (simp add: BytesToUint64_def length_Uint64ToBytes)
qed

lemma key_neq:
  "(AccountKVNameSpace, AccountTrieRootKey) \<noteq> (AccountKVNameSpace, CurrentHeightKey)"
  "(AccountKVNameSpace, AccountTrieRootKey) \<noteq> (CandidateKVNameSpace, CandidateTrieRootKey)"
  "(CandidateKVNameSpace, CandidateTrieRootKey) \<noteq> (AccountKVNameSpace, CurrentHeightKey)"
  by (simp_all add: AccountKVNameSpace_def CandidateKVNameSpace_def AccountTrieRootKey_def
        CurrentHeightKey_def CandidateTrieRootKey_def)

lemma persistCommit_Inr:
  assumes "persistCommit E h sf = (Inr (), sf')"
  shows "\<exists>cs bs. sortCandidates (map snd (cachedCandidates sf)) = Inr cs \<and>
           Serialize E cs = Inr bs \<and>
           candidateTrie sf' = trieCommit (trieUpsert (candidateTrie sf) (Uint64ToBytes h) bs)"
    and "cachedCandidates sf' = cachedCandidates sf"
    and "accountTrie sf' = trieCommit (accountTrie sf)"
    and "trieDB sf' (AccountKVNameSpace, AccountTrieRootKey) = Some (RootHash E sf')"
    and "trieDB sf' (AccountKVNameSpace, CurrentHeightKey) = Some (Uint64ToBytes h)"
    and "currentChainHeight sf' = h"
  using assms key_neq
  by (auto simp: persistCommit_def MapToCandidates_def RootHash_def trieCommit_def Let_def
           split: sum.splits)

lemma CommitStateChanges_Inr:
  assumes "CommitStateChanges E h tsf vote executions sf = (Inr (), sf')"
  shows "\<exists>sf6. persistCommit E h sf6 = (Inr (), sf')"
  using assms
  by (auto simp: CommitStateChanges_def split: prod.splits sum.splits)

text \<open>
  Claim C3. After a successful CommitStateChanges the key-value store holds under
  AccountTrieRoot the value that RootHash returns, and Height returns the block height of
  the call, which is the value stored under CurrentHeight.
\<close>

theorem CommitStateChanges_root_height:
  "CommitStateChanges E blockHeight tsf vote executions sf = (Inr (), sf') \<longrightarrow>
     trieDB sf' (AccountKVNameSpace, AccountTrieRootKey) = Some (RootHash E sf') \<and>
     trieDB sf' (AccountKVNameSpace, CurrentHeightKey) = Some (Uint64ToBytes blockHeight) \<and>
     Height sf' = Inr blockHeight"
proof
  assume "CommitStateChanges E blockHeight tsf vote executions sf = (Inr (), sf')"
  then obtain sf6 where p: "persistCommit E blockHeight sf6 = (Inr (), sf')"
    using CommitStateChanges_Inr by blast
  note f = persistCommit_Inr(4,5)[OF p]
  from f(2) have "Height sf' = Inr blockHeight"
    by (simp add: Height_def BytesToUint64_Uint64ToBytes)
  with f show "trieDB sf' (AccountKVNameSpace, AccountTrieRootKey) = Some (RootHash E sf') \<and>
     trieDB sf' (AccountKVNameSpace, CurrentHeightKey) = Some (Uint64ToBytes blockHeight) \<and>
     Height sf' = Inr blockHeight"
    by simp
qed

lemmas commit_defs = CommitStateChanges_def recoverCandidates_def persistCommit_def
  putState_def updateCandidate_def MapToCandidates_def sortCandidates_def candidateKey_def
  trieUpsert_def trieCommit_def RootHash_def newState_def E0_def sfC_def emptyTrie_def Let_def

lemma commit_sfC_5: "fst (CommitStateChanges E0 5 [] [] [] sfC) = Inr ()"
  by (simp add: commit_defs)

theorem CommitStateChanges_root_height_witness:
  "fst (CommitStateChanges E0 5 [] [] [] sfC) = Inr () \<and>
   trieDB (snd (CommitStateChanges E0 5 [] [] [] sfC)) (AccountKVNameSpace, AccountTrieRootKey)
     = Some (RootHash E0 (snd (CommitStateChanges E0 5 [] [] [] sfC))) \<and>
   Height (snd (CommitStateChanges E0 5 [] [] [] sfC)) = Inr 5"
proof -
  have "CommitStateChanges E0 5 [] [] [] sfC = (Inr (), snd (CommitStateChanges E0 5 [] [] [] sfC))"
    using commit_sfC_5 by (cases "CommitStateChanges E0 5 [] [] [] sfC") simp
  with CommitStateChanges_root_height[of E0 5 "[]" "[]" "[]" sfC
         "snd (CommitStateChanges E0 5 [] [] [] sfC)"] commit_sfC_5
  show ?thesis by simp
qed

section \<open>Commit: failure before any write, heights\<close>

lemma LoadOrCreateState_frame:
  assumes "LoadOrCreateState E a i sf = (r, sf1)"
  shows "\<exists>ca. sf1 = sf\<lparr>cachedAccount := ca\<rparr>"
proof (cases r)
  case (Inl e)
  with assms have "sf1 = sf\<lparr>cachedAccount := cachedAccount sf\<rparr>"
    by (simp add: LoadOrCreateState_Inl)
  then show ?thesis ..
next
  case (Inr s)
  with assms LoadOrCreateState_Inr(2)[of E a i sf s sf1]
  have "sf1 = sf\<lparr>cachedAccount := cachedAccount sf\<rparr> \<or>
        sf1 = sf\<lparr>cachedAccount := AList.update a s (cachedAccount sf)\<rparr>"
    by (auto simp: setAccount_def)
  then show ?thesis by blast
qed

lemma setAccount_frame: "setAccount a s (sf\<lparr>cachedAccount := ca\<rparr>) =
    sf\<lparr>cachedAccount := AList.update a s ca\<rparr>"
  by (simp add: setAccount_def)

lemma handleTsf_sender_frame:
  assumes "handleTsf_sender E tx sf = (r, sf')"
  shows "\<exists>ca. sf' = sf\<lparr>cachedAccount := ca\<rparr>"
proof -
  obtain r1 sf1 where L1: "LoadOrCreateState E (Sender tx) 0 sf = (r1, sf1)"
    by (cases "LoadOrCreateState E (Sender tx) 0 sf") auto
  from LoadOrCreateState_frame[OF L1] obtain ca1 where sf1: "sf1 = sf\<lparr>cachedAccount := ca1\<rparr>" ..
  show ?thesis
  proof (cases r1)
    case (Inl e)
    with assms L1 sf1 show ?thesis by (auto simp: handleTsf_sender_def)
  next
    case (Inr sender)
    show ?thesis
    proof (cases "Amount tx > Balance sender")
      case True
      with assms L1 Inr sf1 show ?thesis by (auto simp: handleTsf_sender_def)
    next
      case False
      from L1 Inr have L: "LoadOrCreateState E (Sender tx) 0 sf = (Inr sender, sf1)" by simp
      define sf2 where "sf2 = setAccount (Sender tx)
                      (sender\<lparr>Balance := Balance sender - Amount tx,
                              Nonce := max (Nonce sender) (TsfNonce tx)\<rparr>) sf1"
      have sf2: "\<exists>ca. sf2 = sf\<lparr>cachedAccount := ca\<rparr>"
        unfolding sf2_def sf1 setAccount_frame by blast
      note run = assms[unfolded handleTsf_sender_unfold[OF L False], folded sf2_def]
      show ?thesis
      proof (cases "Votee sender \<noteq> [] \<and> Votee sender \<noteq> Sender tx")
        case False
        with run sf2 show ?thesis by auto
      next
        case True
        obtain r3 sf3 where L3: "LoadOrCreateState E (Votee sender) 0 sf2 = (r3, sf3)"
          by (cases "LoadOrCreateState E (Votee sender) 0 sf2") auto
        from LoadOrCreateState_frame[OF L3] sf2 obtain ca3
          where sf3: "sf3 = sf\<lparr>cachedAccount := ca3\<rparr>" by auto
        from run True L3 show ?thesis
          by (cases r3) (auto simp: sf3 setAccount_frame)
      qed
    qed
  qed
qed

lemma handleTsf_recipient_frame:
  assumes "handleTsf_recipient E tx sf = (r, sf')"
  shows "\<exists>ca. sf' = sf\<lparr>cachedAccount := ca\<rparr>"
proof -
  obtain r1 sf1 where L1: "LoadOrCreateState E (Recipient tx) 0 sf = (r1, sf1)"
    by (cases "LoadOrCreateState E (Recipient tx) 0 sf") auto
  from LoadOrCreateState_frame[OF L1] obtain ca1 where sf1: "sf1 = sf\<lparr>cachedAccount := ca1\<rparr>" ..
  show ?thesis
  proof (cases r1)
    case (Inl e)
    with assms L1 sf1 show ?thesis by (auto simp: handleTsf_recipient_def)
  next
    case (Inr recipient)
    from L1 Inr have L: "LoadOrCreateState E (Recipient tx) 0 sf = (Inr recipient, sf1)" by simp
    define sf2 where "sf2 = setAccount (Recipient tx)
                      (recipient\<lparr>Balance := Balance recipient + Amount tx\<rparr>) sf1"
    have sf2: "\<exists>ca. sf2 = sf\<lparr>cachedAccount := ca\<rparr>"
      unfolding sf2_def sf1 setAccount_frame by blast
    note run = assms[unfolded handleTsf_recipient_unfold[OF L], folded sf2_def]
    show ?thesis
    proof (cases "Votee recipient \<noteq> [] \<and> Votee recipient \<noteq> Recipient tx")
      case False
      with run sf2 show ?thesis by auto
    next
      case True
      obtain r3 sf3 where L3: "LoadOrCreateState E (Votee recipient) 0 sf2 = (r3, sf3)"
        by (cases "LoadOrCreateState E (Votee recipient) 0 sf2") auto
      from LoadOrCreateState_frame[OF L3] sf2 obtain ca3
        where sf3: "sf3 = sf\<lparr>cachedAccount := ca3\<rparr>" by auto
      from run True L3 show ?thesis
        by (cases r3) (auto simp: sf3 setAccount_frame)
    qed
  qed
qed

lemma handleTsf_iter_frame:
  assumes "handleTsf_iter E tx sf = (r, sf')"
  shows "\<exists>ca. sf' = sf\<lparr>cachedAccount := ca\<rparr>"
proof (cases "IsContract tx")
  case True
  with assms have "sf' = sf\<lparr>cachedAccount := cachedAccount sf\<rparr>"
    by (simp add: handleTsf_iter_def)
  then show ?thesis ..
next
  case False
  obtain r1 sf1 where S: "(if \<not> IsCoinbase tx then handleTsf_sender E tx sf else (Inr (), sf))
       = (r1, sf1)"
    by (cases "(if \<not> IsCoinbase tx then handleTsf_sender E tx sf else (Inr (), sf))") auto
  have "\<exists>ca. sf1 = sf\<lparr>cachedAccount := ca\<rparr>"
  proof (cases "IsCoinbase tx")
    case True
    with S have "sf1 = sf\<lparr>cachedAccount := cachedAccount sf\<rparr>" by simp
    then show ?thesis ..
  next
    case False
    with S show ?thesis by (auto dest: handleTsf_sender_frame)
  qed
  then obtain ca1 where sf1: "sf1 = sf\<lparr>cachedAccount := ca1\<rparr>" ..
  show ?thesis
  proof (cases r1)
    case (Inl e)
    with assms False S sf1 show ?thesis by (auto simp: handleTsf_iter_def)
  next
    case (Inr u)
    with assms False S have "handleTsf_recipient E tx sf1 = (r, sf')"
      by (simp add: handleTsf_iter_def)
    from handleTsf_recipient_frame[OF this] sf1 show ?thesis by auto
  qed
qed

lemma handleTsf_frame:
  "handleTsf E tsf sf = (r, sf') \<Longrightarrow> \<exists>ca. sf' = sf\<lparr>cachedAccount := ca\<rparr>"
proof (induction tsf arbitrary: sf)
  case Nil
  then have "sf' = sf\<lparr>cachedAccount := cachedAccount sf\<rparr>" by simp
  then show ?case ..
next
  case (Cons tx tsf)
  obtain r1 sf1 where I: "handleTsf_iter E tx sf = (r1, sf1)"
    by (cases "handleTsf_iter E tx sf") auto
  from handleTsf_iter_frame[OF I] obtain ca1 where sf1: "sf1 = sf\<lparr>cachedAccount := ca1\<rparr>" ..
  show ?case
  proof (cases r1)
    case (Inl e)
    with Cons.prems I sf1 show ?thesis by auto
  next
    case (Inr u)
    with Cons.prems I have "handleTsf E tsf sf1 = (r, sf')" by simp
    from Cons.IH[OF this] sf1 show ?thesis by auto
  qed
qed

lemma recoverCandidates_frame:
  assumes "recoverCandidates E h sf = (r, sf1)"
  shows "accountTrie sf1 = accountTrie sf" "candidateTrie sf1 = candidateTrie sf"
    "trieDB sf1 = trieDB sf" "currentChainHeight sf1 = currentChainHeight sf"
    "cachedAccount sf1 = cachedAccount sf"
  using assms
  by (auto simp: recoverCandidates_def CandidatesToMap_def split: if_splits sum.splits)

text \<open>
  Claim C4. When the transfers of a CommitStateChanges call fail with
  ErrNotEnoughBalance (after the recovery of the candidate pool, which only reads), the call
  returns that error and has written nothing: both tries, with their pending and
  their persisted content, the key-value entries (roots and height) and the in-memory
  height are those of the factory before the call.
\<close>

theorem CommitStateChanges_overdraw:
  "recoverCandidates E blockHeight sf = (Inr (), sf1) \<and>
   handleTsf E tsf sf1 = (Inl ErrNotEnoughBalance, sf2) \<longrightarrow>
     CommitStateChanges E blockHeight tsf vote executions sf = (Inl ErrNotEnoughBalance, sf2) \<and>
     accountTrie sf2 = accountTrie sf \<and> candidateTrie sf2 = candidateTrie sf \<and>
     trieDB sf2 = trieDB sf \<and> currentChainHeight sf2 = currentChainHeight sf"
proof (intro impI, elim conjE)
  assume r: "recoverCandidates E blockHeight sf = (Inr (), sf1)"
    and t: "handleTsf E tsf sf1 = (Inl ErrNotEnoughBalance, sf2)"
  from handleTsf_frame[OF t] obtain ca where "sf2 = sf1\<lparr>cachedAccount := ca\<rparr>" ..
  then have "accountTrie sf2 = accountTrie sf1" "candidateTrie sf2 = candidateTrie sf1"
    "trieDB sf2 = trieDB sf1" "currentChainHeight sf2 = currentChainHeight sf1"
    by simp_all
  moreover have "CommitStateChanges E blockHeight tsf vote executions sf
      = (Inl ErrNotEnoughBalance, sf2)"
    by (simp add: CommitStateChanges_def r t)
  ultimately show "CommitStateChanges E blockHeight tsf vote executions sf
       = (Inl ErrNotEnoughBalance, sf2) \<and>
     accountTrie sf2 = accountTrie sf \<and> candidateTrie sf2 = candidateTrie sf \<and>
     trieDB sf2 = trieDB sf \<and> currentChainHeight sf2 = currentChainHeight sf"
    using recoverCandidates_frame[OF r] by simp
qed


theorem CommitStateChanges_overdraw_witness:
  "recoverCandidates E0 0 sfO = (Inr (), sfO) \<and>
   handleTsf E0 [txO] sfO = (Inl ErrNotEnoughBalance, sfO) \<and>
   CommitStateChanges E0 0 [txO] [] [] sfO = (Inl ErrNotEnoughBalance, sfO) \<and>
   Height sfO = Inr 0"
proof -
  have r: "recoverCandidates E0 0 sfO = (Inr (), sfO)"
    by (simp add: recoverCandidates_def)
  have t: "handleTsf E0 [txO] sfO = (Inl ErrNotEnoughBalance, sfO)"
    by (simp add: handleTsf_iter_def handleTsf_sender_def LoadOrCreateState_def E0_def
          sfO_def txO_def newState_def)
  from CommitStateChanges_overdraw[of E0 0 sfO sfO "[txO]" sfO "[]" "[]"] r t
  show ?thesis
    by (simp add: Height_def sfO_def BytesToUint64_Uint64ToBytes)
qed

text \<open>
  Claim C5, as the code has it. CommitStateChanges never compares the block height with
  the height it holds: after each of two successive successful calls the persisted height
  and the in-memory height are the block height of that call, whatever the two heights are.
\<close>

theorem CommitStateChanges_height_sequence:
  "CommitStateChanges E h1 tsf1 vote1 executions1 sf = (Inr (), sf1) \<and>
   CommitStateChanges E h2 tsf2 vote2 executions2 sf1 = (Inr (), sf2) \<longrightarrow>
     Height sf1 = Inr h1 \<and> currentChainHeight sf1 = h1 \<and>
     Height sf2 = Inr h2 \<and> currentChainHeight sf2 = h2"
proof (intro impI, elim conjE)
  assume c1: "CommitStateChanges E h1 tsf1 vote1 executions1 sf = (Inr (), sf1)"
    and c2: "CommitStateChanges E h2 tsf2 vote2 executions2 sf1 = (Inr (), sf2)"
  have *: "Height b = Inr h \<and> currentChainHeight b = h"
    if "CommitStateChanges E h t v x a = (Inr (), b)" for h t v x a b
  proof -
    from that obtain sf6 where p: "persistCommit E h sf6 = (Inr (), b)"
      using CommitStateChanges_Inr by blast
    from persistCommit_Inr(5,6)[OF p] show ?thesis
      by (simp add: Height_def BytesToUint64_Uint64ToBytes)
  qed
  from *[OF c1] *[OF c2]
  show "Height sf1 = Inr h1 \<and> currentChainHeight sf1 = h1 \<and>
     Height sf2 = Inr h2 \<and> currentChainHeight sf2 = h2" by simp
qed

lemma commit_sfC_5_6:
  "fst (CommitStateChanges E0 6 [] [] [] (snd (CommitStateChanges E0 5 [] [] [] sfC))) = Inr ()"
  by (simp add: commit_defs)

lemma commit_sfC_5_3:
  "fst (CommitStateChanges E0 3 [] [] [] (snd (CommitStateChanges E0 5 [] [] [] sfC))) = Inr ()"
  by (simp add: commit_defs)

lemma fst_Inr_unit: "fst p = Inr () \<Longrightarrow> p = (Inr (), snd p)"
  by (cases p) simp

theorem CommitStateChanges_height_sequence_witness:
  "fst (CommitStateChanges E0 5 [] [] [] sfC) = Inr () \<and>
   fst (CommitStateChanges E0 6 [] [] [] (snd (CommitStateChanges E0 5 [] [] [] sfC))) = Inr () \<and>
   Height (snd (CommitStateChanges E0 5 [] [] [] sfC)) = Inr 5 \<and>
   Height (snd (CommitStateChanges E0 6 [] [] []
                  (snd (CommitStateChanges E0 5 [] [] [] sfC)))) = Inr 6"
  using CommitStateChanges_height_sequence[of E0 5 "[]" "[]" "[]" sfC
          "snd (CommitStateChanges E0 5 [] [] [] sfC)" 6 "[]" "[]" "[]"
          "snd (CommitStateChanges E0 6 [] [] [] (snd (CommitStateChanges E0 5 [] [] [] sfC)))"]
        fst_Inr_unit[OF commit_sfC_5] fst_Inr_unit[OF commit_sfC_5_6]
        commit_sfC_5 commit_sfC_5_6
  by simp

text \<open>Against claim C5 as stated: a commit at height 5 followed by a commit at height 3,
  both successful; the height goes from 5 to 3.\<close>

theorem CommitStateChanges_height_counterexample:
  "fst (CommitStateChanges E0 5 [] [] [] sfC) = Inr () \<and>
   fst (CommitStateChanges E0 3 [] [] [] (snd (CommitStateChanges E0 5 [] [] [] sfC))) = Inr () \<and>
   Height (snd (CommitStateChanges E0 5 [] [] [] sfC)) = Inr 5 \<and>
   Height (snd (CommitStateChanges E0 3 [] [] []
                  (snd (CommitStateChanges E0 5 [] [] [] sfC)))) = Inr 3 \<and>
   (3 :: uint64) \<noteq> 5 + 1 \<and> \<not> (5 :: uint64) < 3"
proof -
  have "Height b = Inr h" if "fst (CommitStateChanges E0 h t v x a) = Inr ()"
     and "b = snd (CommitStateChanges E0 h t v x a)" for h t v x a b
  proof -
    from that have "CommitStateChanges E0 h t v x a = (Inr (), b)"
      by (simp add: fst_Inr_unit)
    then obtain sf6 where p: "persistCommit E0 h sf6 = (Inr (), b)"
      using CommitStateChanges_Inr by blast
    from persistCommit_Inr(5)[OF p] show ?thesis
      by (simp add: Height_def BytesToUint64_Uint64ToBytes)
  qed
  from this[OF commit_sfC_5 refl] this[OF commit_sfC_5_3 refl] commit_sfC_5 commit_sfC_5_3
  show ?thesis by simp
qed

section \<open>Commit: the archived candidate list\<close>

lemma sortCandidates_Inr:
  "sortCandidates l = Inr cs \<Longrightarrow>
     cs = sort_key candidateKey l \<and> sortedCandidates cs \<and> length cs = length l \<and>
     mset cs = mset l"
  by (auto simp: sortCandidates_def sortedCandidates_def split: if_splits)

text \<open>
  Claim C7, as the code has it. In a successful CommitStateChanges the value stored in
  the candidate trie under the big-endian bytes of the block height, and flushed by the
  trie's commit, is the serialization of the whole candidate pool sorted by the total
  order: the list has as many records as the pool, and num_candidates plays no part
  (CandidatesByHeight cuts the list when it is read back).
\<close>

theorem CommitStateChanges_archive:
  "CommitStateChanges E blockHeight tsf vote executions sf = (Inr (), sf') \<longrightarrow>
     (\<exists>l cs bs. MapToCandidates (cachedCandidates sf') = Inr l \<and>
        sortCandidates l = Inr cs \<and> sortedCandidates cs \<and>
        length cs = length (cachedCandidates sf') \<and> mset cs = mset l \<and>
        Serialize E cs = Inr bs \<and>
        trieGet (candidateTrie sf') (Uint64ToBytes blockHeight) = Inr bs \<and>
        flushed (candidateTrie sf') (Uint64ToBytes blockHeight) = Some bs)"
proof
  assume "CommitStateChanges E blockHeight tsf vote executions sf = (Inr (), sf')"
  then obtain sf6 where p: "persistCommit E blockHeight sf6 = (Inr (), sf')"
    using CommitStateChanges_Inr by blast
  from persistCommit_Inr(1)[OF p] obtain cs bs where
    s: "sortCandidates (map snd (cachedCandidates sf6)) = Inr cs" and
    b: "Serialize E cs = Inr bs" and
    t: "candidateTrie sf' = trieCommit (trieUpsert (candidateTrie sf6) (Uint64ToBytes blockHeight) bs)"
    by blast
  have c: "cachedCandidates sf' = cachedCandidates sf6" by (rule persistCommit_Inr(2)[OF p])
  have g: "trieGet (candidateTrie sf') (Uint64ToBytes blockHeight) = Inr bs"
    "flushed (candidateTrie sf') (Uint64ToBytes blockHeight) = Some bs"
    by (simp_all add: t trieGet_def trieCommit_def trieUpsert_def)
  have s1: "sortedCandidates cs" and s2: "length cs = length (cachedCandidates sf')"
    and s3: "mset cs = mset (map snd (cachedCandidates sf'))"
    using sortCandidates_Inr[OF s] unfolding c by (blast, simp, blast)
  have m: "MapToCandidates (cachedCandidates sf') = Inr (map snd (cachedCandidates sf'))"
    by (simp add: MapToCandidates_def)
  from s have s': "sortCandidates (map snd (cachedCandidates sf')) = Inr cs" by (simp add: c)
  from m s' s1 s2 s3 b g
  show "\<exists>l cs bs. MapToCandidates (cachedCandidates sf') = Inr l \<and>
        sortCandidates l = Inr cs \<and> sortedCandidates cs \<and>
        length cs = length (cachedCandidates sf') \<and> mset cs = mset l \<and>
        Serialize E cs = Inr bs \<and>
        trieGet (candidateTrie sf') (Uint64ToBytes blockHeight) = Inr bs \<and>
        flushed (candidateTrie sf') (Uint64ToBytes blockHeight) = Some bs"
    by blast
qed

lemma commit_sfC_5_value:
  "trieGet (candidateTrie (snd (CommitStateChanges E0 5 [] [] [] sfC))) (Uint64ToBytes 5)
     = Inr [68, 0, 67, 0]"
  "map snd (cachedCandidates (snd (CommitStateChanges E0 5 [] [] [] sfC))) =
     [\<lparr>Address = ''C'', Votes = Some 50, PubKey = [], CreationHeight = 1, LastUpdateHeight = 5\<rparr>,
      \<lparr>Address = ''D'', Votes = Some 70, PubKey = [], CreationHeight = 2, LastUpdateHeight = 4\<rparr>]"
  by (simp_all add: commit_defs trieGet_def)

theorem CommitStateChanges_archive_witness:
  "fst (CommitStateChanges E0 5 [] [] [] sfC) = Inr () \<and>
   (\<exists>cs. sortedCandidates cs \<and> length cs = 2 \<and>
      Serialize E0 cs = Inr [68, 0, 67, 0] \<and>
      trieGet (candidateTrie (snd (CommitStateChanges E0 5 [] [] [] sfC))) (Uint64ToBytes 5)
        = Inr [68, 0, 67, 0])"
proof -
  from CommitStateChanges_archive[of E0 5 "[]" "[]" "[]" sfC
         "snd (CommitStateChanges E0 5 [] [] [] sfC)"] fst_Inr_unit[OF commit_sfC_5]
  obtain l cs bs where
    "MapToCandidates (cachedCandidates (snd (CommitStateChanges E0 5 [] [] [] sfC))) = Inr l"
    "sortedCandidates cs"
    "length cs = length (cachedCandidates (snd (CommitStateChanges E0 5 [] [] [] sfC)))"
    "Serialize E0 cs = Inr bs"
    "trieGet (candidateTrie (snd (CommitStateChanges E0 5 [] [] [] sfC))) (Uint64ToBytes 5) = Inr bs"
    by auto
  moreover have "length (cachedCandidates (snd (CommitStateChanges E0 5 [] [] [] sfC))) = 2"
    using arg_cong[OF commit_sfC_5_value(2), of length] by simp
  ultimately show ?thesis
    using commit_sfC_5 commit_sfC_5_value(1) by auto
qed

text \<open>Against claim C7 as stated: with num_candidates = 1 and two candidates in the
  pool, the stored value is the serialization of both records, not of the first one.\<close>

theorem CommitStateChanges_archive_counterexample:
  "fst (CommitStateChanges E0 5 [] [] [] sfC) = Inr () \<and>
   numCandidates (snd (CommitStateChanges E0 5 [] [] [] sfC)) = 1 \<and>
   trieGet (candidateTrie (snd (CommitStateChanges E0 5 [] [] [] sfC))) (Uint64ToBytes 5)
     = Inr [68, 0, 67, 0] \<and>
   Serialize E0 (take (unat (numCandidates (snd (CommitStateChanges E0 5 [] [] [] sfC))))
      (sort_key candidateKey
         (map snd (cachedCandidates (snd (CommitStateChanges E0 5 [] [] [] sfC))))))
     = Inr [68, 0] \<and>
   trieGet (candidateTrie (snd (CommitStateChanges E0 5 [] [] [] sfC))) (Uint64ToBytes 5) \<noteq>
   Serialize E0 (take (unat (numCandidates (snd (CommitStateChanges E0 5 [] [] [] sfC))))
      (sort_key candidateKey
         (map snd (cachedCandidates (snd (CommitStateChanges E0 5 [] [] [] sfC))))))"
proof -
  have n: "numCandidates (snd (CommitStateChanges E0 5 [] [] [] sfC)) = 1"
    by (simp add: commit_defs)
  have s: "Serialize E0 (take (unat (1::uint64))
      (sort_key candidateKey
         (map snd (cachedCandidates (snd (CommitStateChanges E0 5 [] [] [] sfC))))))
     = Inr [68, 0]"
    unfolding commit_sfC_5_value(2) by (simp add: candidateKey_def E0_def)
  show ?thesis
    using commit_sfC_5 commit_sfC_5_value(1) s by (simp add: n)
qed

section \<open>Lookups, executions and the candidate list\<close>

lemma getState_absent:
  "nodes (accountTrie sf) h = None \<Longrightarrow> getState E sf h = Inl ErrAccountNotExist"
  by (simp add: getState_def trieGet_def)

lemma getContract_absent:
  "map_of (cachedContract sf) h = None \<Longrightarrow> nodes (accountTrie sf) h = None \<Longrightarrow>
   getContract E h sf = (Inl ErrAccountNotExist, sf)"
  by (simp add: getContract_def getState_absent)

text \<open>
  Claim C8, as the code has it. For a well-formed address that is in neither cache and
  not in the account trie, LoadOrCreateState creates a record with the given balance,
  caches it and returns it; CachedState returns ErrAccountNotExist, as State does, and
  leaves the factory as it is.
\<close>

theorem absent_account_lookup:
  "GetPubkeyHash E addr = Inr pkHash \<and>
   map_of (cachedAccount sf) addr = None \<and>
   map_of (cachedContract sf) (BytesTo20B E pkHash) = None \<and>
   nodes (accountTrie sf) (BytesTo20B E pkHash) = None \<longrightarrow>
     LoadOrCreateState E addr init sf = (Inr (newState init), setAccount addr (newState init) sf) \<and>
     map_of (cachedAccount (setAccount addr (newState init) sf)) addr = Some (newState init) \<and>
     CachedState E addr sf = (Inl ErrAccountNotExist, sf) \<and>
     StateOf E addr sf = Inl ErrAccountNotExist"
  by (simp add: LoadOrCreateState_def CachedState_def StateOf_def getState_absent
        getContract_absent setAccount_def update_conv')

lemmas lookup_defs = CachedState_def getContract_def getState_def trieGet_def
  E0_def sfT_def emptyTrie_def

theorem absent_account_lookup_witness:
  "GetPubkeyHash E0 ''Z'' = Inr [90] \<and>
   map_of (cachedAccount sfT) ''Z'' = None \<and>
   map_of (cachedContract sfT) (BytesTo20B E0 [90]) = None \<and>
   nodes (accountTrie sfT) (BytesTo20B E0 [90]) = None \<and>
   fst (LoadOrCreateState E0 ''Z'' 7 sfT) = Inr (newState 7) \<and>
   map_of (cachedAccount (snd (LoadOrCreateState E0 ''Z'' 7 sfT))) ''Z'' = Some (newState 7) \<and>
   CachedState E0 ''Z'' sfT = (Inl ErrAccountNotExist, sfT)"
proof -
  have h: "GetPubkeyHash E0 ''Z'' = Inr [90] \<and>
   map_of (cachedAccount sfT) ''Z'' = None \<and>
   map_of (cachedContract sfT) (BytesTo20B E0 [90]) = None \<and>
   nodes (accountTrie sfT) (BytesTo20B E0 [90]) = None"
    by (simp add: E0_def sfT_def emptyTrie_def)
  with absent_account_lookup[of E0 "''Z''" "[90]" sfT 7] show ?thesis by simp
qed

text \<open>Against claim C8 as stated: CachedState on an address that is in no cache and not
  in the trie returns ErrAccountNotExist.\<close>

theorem CachedState_counterexample:
  "map_of (cachedAccount sfT) ''Z'' = None \<and>
   map_of (cachedContract sfT) [90] = None \<and>
   nodes (accountTrie sfT) [90] = None \<and>
   GetPubkeyHash E0 ''Z'' = Inr [90] \<and>
   fst (CachedState E0 ''Z'' sfT) = Inl ErrAccountNotExist \<and>
   snd (CachedState E0 ''Z'' sfT) = sfT"
  by (simp add: lookup_defs)

lemma handleExecution_iter_effect:
  "handleExecution_iter E e sf = (Inr (), sf') \<and>
   addr = (case GetPubkeyHash E (Executor e) of Inl _ \<Rightarrow> [] | Inr a \<Rightarrow> a) \<and>
   (case map_of (cachedAccount sf) (Executor e) of
      Some state \<Rightarrow> Inr state
    | None \<Rightarrow> getState E sf (BytesTo20B E addr)) = Inr s \<longrightarrow>
     (\<exists>ss. stateToBytes E (s\<lparr>Nonce := max (Nonce s + 1) (ExecNonce e)\<rparr>) = Inr ss \<and>
           trieGet (accountTrie sf') addr = Inr ss) \<and>
     (map_of (cachedAccount sf) (Executor e) \<noteq> None \<longrightarrow>
        map_of (cachedAccount sf') (Executor e) =
          Some (s\<lparr>Nonce := max (Nonce s + 1) (ExecNonce e)\<rparr>)) \<and>
     (map_of (cachedAccount sf) (Executor e) = None \<longrightarrow> cachedAccount sf' = cachedAccount sf) \<and>
     (ExecNonce e = Nonce s + 1 \<longrightarrow> max (Nonce s + 1) (ExecNonce e) = Nonce s + 1)"
proof (intro impI, elim conjE)
  assume run: "handleExecution_iter E e sf = (Inr (), sf')"
    and addr: "addr = (case GetPubkeyHash E (Executor e) of Inl _ \<Rightarrow> [] | Inr a \<Rightarrow> a)"
    and s: "(case map_of (cachedAccount sf) (Executor e) of
      Some state \<Rightarrow> Inr state
    | None \<Rightarrow> getState E sf (BytesTo20B E addr)) = Inr s"
  define s2 where "s2 = s\<lparr>Nonce := max (Nonce s + 1) (ExecNonce e)\<rparr>"
  have put: "putState E s2 addr
      (if map_of (cachedAccount sf) (Executor e) = None then sf
       else setAccount (Executor e) s2 sf) = (Inr (), sf')"
    using run s unfolding s2_def addr
    by (cases "map_of (cachedAccount sf) (Executor e)"; cases "Nonce s + 1 < ExecNonce e")
       (auto simp: handleExecution_iter_def Let_def max_def split: sum.splits)
  then obtain ss where ss: "stateToBytes E s2 = Inr ss"
    and sf': "sf' = (if map_of (cachedAccount sf) (Executor e) = None then sf
       else setAccount (Executor e) s2 sf)\<lparr>accountTrie :=
          trieUpsert (accountTrie (if map_of (cachedAccount sf) (Executor e) = None then sf
       else setAccount (Executor e) s2 sf)) addr ss\<rparr>"
    by (cases "stateToBytes E s2") (auto simp: putState_def)
  have "trieGet (accountTrie sf') addr = Inr ss"
    by (simp add: sf' trieGet_def trieUpsert_def)
  moreover have "map_of (cachedAccount sf) (Executor e) \<noteq> None \<Longrightarrow>
        map_of (cachedAccount sf') (Executor e) = Some s2"
    by (simp add: sf' setAccount_def update_conv')
  moreover have "map_of (cachedAccount sf) (Executor e) = None \<Longrightarrow>
        cachedAccount sf' = cachedAccount sf"
    by (simp add: sf')
  ultimately show "(\<exists>ss. stateToBytes E (s\<lparr>Nonce := max (Nonce s + 1) (ExecNonce e)\<rparr>) = Inr ss \<and>
           trieGet (accountTrie sf') addr = Inr ss) \<and>
     (map_of (cachedAccount sf) (Executor e) \<noteq> None \<longrightarrow>
        map_of (cachedAccount sf') (Executor e) =
          Some (s\<lparr>Nonce := max (Nonce s + 1) (ExecNonce e)\<rparr>)) \<and>
     (map_of (cachedAccount sf) (Executor e) = None \<longrightarrow> cachedAccount sf' = cachedAccount sf) \<and>
     (ExecNonce e = Nonce s + 1 \<longrightarrow> max (Nonce s + 1) (ExecNonce e) = Nonce s + 1)"
    using ss unfolding s2_def by auto
qed

text \<open>
  Claim C9. An execution whose iteration succeeds replaces the executor's nonce \<open>n\<close>
  by the maximum of \<open>n + 1\<close> and the execution's nonce, in uint64 arithmetic: in the
  cached record when the executor is cached, in the record read from the account trie
  otherwise; the new record is what the account trie then holds under the executor's
  key. When the execution's nonce is \<open>n + 1\<close> the new nonce is \<open>n + 1\<close>.
\<close>

theorem handleExecution_iter_nonce:
  "handleExecution_iter E e sf = (Inr (), sf') \<and>
   addr = (case GetPubkeyHash E (Executor e) of Inl _ \<Rightarrow> [] | Inr a \<Rightarrow> a) \<and>
   (case map_of (cachedAccount sf) (Executor e) of
      Some state \<Rightarrow> Inr state
    | None \<Rightarrow> getState E sf (BytesTo20B E addr)) = Inr s \<longrightarrow>
     (\<exists>ss. stateToBytes E (s\<lparr>Nonce := max (Nonce s + 1) (ExecNonce e)\<rparr>) = Inr ss \<and>
           trieGet (accountTrie sf') addr = Inr ss) \<and>
     (map_of (cachedAccount sf) (Executor e) \<noteq> None \<longrightarrow>
        map_of (cachedAccount sf') (Executor e) =
          Some (s\<lparr>Nonce := max (Nonce s + 1) (ExecNonce e)\<rparr>)) \<and>
     (map_of (cachedAccount sf) (Executor e) = None \<longrightarrow> cachedAccount sf' = cachedAccount sf) \<and>
     (ExecNonce e = Nonce s + 1 \<longrightarrow> max (Nonce s + 1) (ExecNonce e) = Nonce s + 1)"
  by (rule handleExecution_iter_effect)

lemma sint_nonneg_uint:
  assumes "0 \<le> sint (w::uint64)" shows "sint w = uint w"
proof -
  from assms have nb: "\<not> bit w 63" using bit_last_iff[of w] by simp
  have "take_bit 63 w = w"
  proof (rule bit_word_eqI)
    fix n assume "n < LENGTH(64)"
    then show "bit (take_bit 63 w) n = bit w n"
      using nb by (cases "n = 63") (auto simp: bit_take_bit_iff)
  qed
  then have "uint w = take_bit 63 (uint w)"
    by (metis unsigned_take_bit_eq)
  moreover have "sint w = take_bit 63 (uint w)"
    using nb by (simp add: sint_uint signed_take_bit_eq_if_positive bit_uint_iff)
  ultimately show ?thesis by simp
qed

lemma length_le_sint:
  assumes a: "int n \<le> sint (w::uint64)"
  shows "n \<le> unat w"
proof -
  from a have "0 \<le> sint w" by linarith
  from sint_nonneg_uint[OF this] a have "int n \<le> uint w" by simp
  also have "uint w = int (unat w)" by simp
  finally show ?thesis by (simp only: of_nat_le_iff)
qed

lemma unat_le_length:
  assumes e: "0 \<le> sint w" and a: "\<not> int n \<le> sint (w::uint64)"
  shows "unat w \<le> n"
proof -
  from a sint_nonneg_uint[OF e] have "uint w < int n" by simp
  also have "uint w = int (unat w)" by simp
  finally show ?thesis by (simp only: of_nat_less_iff less_imp_le)
qed

lemma candidateKey_inj:
  "distinct (map Address l) \<Longrightarrow> inj_on candidateKey (set l)"
proof (rule inj_onI)
  fix x y assume d: "distinct (map Address l)" and x: "x \<in> set l" and y: "y \<in> set l"
    and k: "candidateKey x = candidateKey y"
  from k have "Address x = Address y" by (simp add: candidateKey_def)
  with d x y show "x = y" by (meson distinct_map inj_onD)
qed

lemma sort_candidates_permutation:
  assumes "mset l1 = mset l2" "distinct (map Address l1)"
  shows "sort_key candidateKey l1 = sort_key candidateKey l2"
  by (rule sort_key_inj_key_eq[OF _ candidateKey_inj[OF assms(2)]]) (simp_all add: assms(1))

text \<open>
  Claim C6, as the code has it. Whenever Candidates returns, the list has at most
  num_candidates records. A pool of at most num_candidates records is returned whole, in
  the order in which the map is ranged over and without sorting. A larger pool is sorted
  by the total order and cut to its first num_candidates records; that result is the same
  for any two pools holding the same records with distinct addresses. Candidates returns
  whenever num_candidates is below 2^63 and no record of the pool has nil votes.
\<close>

theorem Candidates_spec:
  "(Candidates sf = Inr (h, l) \<longrightarrow>
      h = currentChainHeight sf \<and> length l \<le> unat (numCandidates sf) \<and>
      (int (length (cachedCandidates sf)) \<le> sint (numCandidates sf) \<longrightarrow>
         l = map snd (cachedCandidates sf)) \<and>
      (\<not> int (length (cachedCandidates sf)) \<le> sint (numCandidates sf) \<longrightarrow>
         sortedCandidates l \<and>
         l = take (unat (numCandidates sf))
               (sort_key candidateKey (map snd (cachedCandidates sf))) \<and>
         (\<forall>sf2. mset (map snd (cachedCandidates sf2)) = mset (map snd (cachedCandidates sf)) \<and>
                distinct (map Address (map snd (cachedCandidates sf))) \<and>
                numCandidates sf2 = numCandidates sf \<and>
                currentChainHeight sf2 = currentChainHeight sf \<longrightarrow>
                Candidates sf2 = Inr (h, l)))) \<and>
   (0 \<le> sint (numCandidates sf) \<and> None \<notin> set (map Votes (map snd (cachedCandidates sf)))
      \<longrightarrow> (\<exists>h l. Candidates sf = Inr (h, l)))"
proof (intro conjI impI)
  assume r: "Candidates sf = Inr (h, l)"
  show "h = currentChainHeight sf"
    using r by (auto simp: Candidates_def MapToCandidates_def Let_def split: if_splits sum.splits)
  show "length l \<le> unat (numCandidates sf)"
    using r length_le_sint[of "length (cachedCandidates sf)" "numCandidates sf"]
    by (auto simp: Candidates_def MapToCandidates_def Let_def split: if_splits sum.splits)
next
  assume r: "Candidates sf = Inr (h, l)"
    and "int (length (cachedCandidates sf)) \<le> sint (numCandidates sf)"
  then show "l = map snd (cachedCandidates sf)"
    by (auto simp: Candidates_def MapToCandidates_def Let_def split: if_splits sum.splits)
next
  assume r: "Candidates sf = Inr (h, l)"
    and big: "\<not> int (length (cachedCandidates sf)) \<le> sint (numCandidates sf)"
  then obtain cs where s: "sortCandidates (map snd (cachedCandidates sf)) = Inr cs"
    and n: "unat (numCandidates sf) \<le> length cs"
    and l: "l = take (unat (numCandidates sf)) cs" and h: "h = currentChainHeight sf"
    by (auto simp: Candidates_def MapToCandidates_def Let_def split: if_splits sum.splits)
  note sc = sortCandidates_Inr[OF s]
  from sc have cs: "cs = sort_key candidateKey (map snd (cachedCandidates sf))" by blast
  from sc have "sorted (map candidateKey cs)" by (simp add: sortedCandidates_def)
  then have "sorted (take (unat (numCandidates sf)) (map candidateKey cs))" by simp
  then show "sortedCandidates l" by (simp add: l sortedCandidates_def take_map)
  show l': "l = take (unat (numCandidates sf))
               (sort_key candidateKey (map snd (cachedCandidates sf)))"
    using l cs by simp
  show "\<forall>sf2. mset (map snd (cachedCandidates sf2)) = mset (map snd (cachedCandidates sf)) \<and>
                distinct (map Address (map snd (cachedCandidates sf))) \<and>
                numCandidates sf2 = numCandidates sf \<and>
                currentChainHeight sf2 = currentChainHeight sf \<longrightarrow>
                Candidates sf2 = Inr (h, l)"
  proof (intro allI impI, elim conjE)
    fix sf2 :: factory
    assume m: "mset (map snd (cachedCandidates sf2)) = mset (map snd (cachedCandidates sf))"
      and d: "distinct (map Address (map snd (cachedCandidates sf)))"
      and nc: "numCandidates sf2 = numCandidates sf"
      and ch: "currentChainHeight sf2 = currentChainHeight sf"
    from m have len: "length (cachedCandidates sf2) = length (cachedCandidates sf)"
      by (metis length_map size_mset)
    from m have st: "set (map snd (cachedCandidates sf2)) = set (map snd (cachedCandidates sf))"
      by (metis set_mset_mset)
    have srt: "sort_key candidateKey (map snd (cachedCandidates sf2)) = cs"
      unfolding cs by (rule sort_candidates_permutation[OF m[symmetric] d, symmetric])
    from s have np: "\<not> (2 \<le> length (map snd (cachedCandidates sf)) \<and>
        None \<in> set (map Votes (map snd (cachedCandidates sf))))"
      by (auto simp: sortCandidates_def split: if_splits)
    have sv: "set (map Votes (map snd (cachedCandidates sf2))) =
        set (map Votes (map snd (cachedCandidates sf)))"
      using st by (simp only: set_map)
    have ln: "length (map snd (cachedCandidates sf2)) = length (map snd (cachedCandidates sf))"
      using len by simp
    have s2: "sortCandidates (map snd (cachedCandidates sf2)) = Inr cs"
      unfolding sortCandidates_def sv ln srt using np by simp
    show "Candidates sf2 = Inr (h, l)"
      using big n by (simp add: Candidates_def MapToCandidates_def Let_def len nc s2 l h ch)
  qed
next
  assume a: "0 \<le> sint (numCandidates sf) \<and>
     None \<notin> set (map Votes (map snd (cachedCandidates sf)))"
  show "\<exists>h l. Candidates sf = Inr (h, l)"
  proof (cases "int (length (cachedCandidates sf)) \<le> sint (numCandidates sf)")
    case True
    then show ?thesis by (simp add: Candidates_def MapToCandidates_def Let_def)
  next
    case False
    with a unat_le_length[of "numCandidates sf" "length (cachedCandidates sf)"]
    have "unat (numCandidates sf) \<le> length (cachedCandidates sf)"
      by blast
    with a False show ?thesis
      by (simp add: Candidates_def MapToCandidates_def Let_def sortCandidates_def)
  qed
qed

lemmas exec_defs = handleExecution_iter_def putState_def setAccount_def trieUpsert_def
  trieGet_def getState_def E0_def sfT_def execT_def emptyTrie_def newState_def Let_def

theorem handleExecution_iter_nonce_witness:
  "fst (handleExecution_iter E0 execT sfT) = Inr () \<and>
   map_of (cachedAccount sfT) (Executor execT) = Some ((newState 100)\<lparr>Votee := ''E''\<rparr>) \<and>
   ExecNonce execT = Nonce ((newState 100)\<lparr>Votee := ''E''\<rparr>) + 1 \<and>
   map_of (cachedAccount (snd (handleExecution_iter E0 execT sfT))) (Executor execT) =
     Some ((newState 100)\<lparr>Votee := ''E'', Nonce := 1\<rparr>) \<and>
   trieGet (accountTrie (snd (handleExecution_iter E0 execT sfT))) [65] = Inr [1]"
proof -
  have r: "fst (handleExecution_iter E0 execT sfT) = Inr ()"
    by (simp add: exec_defs)
  have a: "[65] = (case GetPubkeyHash E0 (Executor execT) of Inl _ \<Rightarrow> [] | Inr a \<Rightarrow> a)"
    by (simp add: E0_def execT_def)
  have s: "(case map_of (cachedAccount sfT) (Executor execT) of
      Some state \<Rightarrow> Inr state
    | None \<Rightarrow> getState E0 sfT (BytesTo20B E0 [65])) = Inr ((newState 100)\<lparr>Votee := ''E''\<rparr>)"
    by (simp add: sfT_def execT_def)
  have c: "map_of (cachedAccount sfT) (Executor execT) = Some ((newState 100)\<lparr>Votee := ''E''\<rparr>)"
    by (simp add: sfT_def execT_def)
  have n: "ExecNonce execT = Nonce ((newState 100)\<lparr>Votee := ''E''\<rparr>) + 1"
    by (simp add: execT_def newState_def)
  have b: "stateToBytes E0 ((newState 100)\<lparr>Votee := ''E'', Nonce := 1\<rparr>) = Inr [1]"
    by (simp add: E0_def)
  from handleExecution_iter_nonce[of E0 execT sfT "snd (handleExecution_iter E0 execT sfT)"
         "[65]" "(newState 100)\<lparr>Votee := ''E''\<rparr>"] fst_Inr_unit[OF r] a s c n b r
  show ?thesis by (simp add: newState_def)
qed

lemmas cand_defs = Candidates_def MapToCandidates_def Let_def sortCandidates_def candidateKey_def
  sortedCandidates_def sfC_def candC_def candD_def

theorem Candidates_spec_witness:
  "Candidates sfC = Inr (4, [candD]) \<and>
   \<not> int (length (cachedCandidates sfC)) \<le> sint (numCandidates sfC) \<and>
   length [candD] \<le> unat (numCandidates sfC) \<and> sortedCandidates [candD] \<and>
   Candidates (sfC\<lparr>cachedCandidates := rev (cachedCandidates sfC)\<rparr>) = Inr (4, [candD]) \<and>
   int (length (cachedCandidates (sfC\<lparr>numCandidates := 2\<rparr>)))
     \<le> sint (numCandidates (sfC\<lparr>numCandidates := 2\<rparr>)) \<and>
   Candidates (sfC\<lparr>numCandidates := 2\<rparr>) = Inr (4, [candC, candD]) \<and>
   0 \<le> sint (numCandidates sfC) \<and>
   None \<notin> set (map Votes (map snd (cachedCandidates sfC)))"
proof -
  have c: "Candidates sfC = Inr (4, [candD])"
    by (simp add: cand_defs)
  have big: "\<not> int (length (cachedCandidates sfC)) \<le> sint (numCandidates sfC)"
    by (simp add: sfC_def)
  have p: "mset (map snd (cachedCandidates (sfC\<lparr>cachedCandidates := rev (cachedCandidates sfC)\<rparr>)))
       = mset (map snd (cachedCandidates sfC)) \<and>
     distinct (map Address (map snd (cachedCandidates sfC))) \<and>
     numCandidates (sfC\<lparr>cachedCandidates := rev (cachedCandidates sfC)\<rparr>) = numCandidates sfC \<and>
     currentChainHeight (sfC\<lparr>cachedCandidates := rev (cachedCandidates sfC)\<rparr>)
       = currentChainHeight sfC"
    by (simp add: sfC_def)
  have c2: "Candidates (sfC\<lparr>numCandidates := 2\<rparr>) = Inr (4, [candC, candD])"
    by (simp add: cand_defs)
  have small: "int (length (cachedCandidates (sfC\<lparr>numCandidates := 2\<rparr>)))
     \<le> sint (numCandidates (sfC\<lparr>numCandidates := 2\<rparr>))"
    by (simp add: sfC_def)
  note spec = Candidates_spec[of sfC 4 "[candD]", THEN conjunct1, rule_format, OF c]
  from spec have "length [candD] \<le> unat (numCandidates sfC)" by blast
  moreover from spec big have "sortedCandidates [candD]" by blast
  moreover from spec big p
  have "Candidates (sfC\<lparr>cachedCandidates := rev (cachedCandidates sfC)\<rparr>) = Inr (4, [candD])"
    by blast
  moreover have "0 \<le> sint (numCandidates sfC) \<and>
      None \<notin> set (map Votes (map snd (cachedCandidates sfC)))"
    by (simp add: sfC_def)
  ultimately show ?thesis using c big c2 small by blast
qed

text \<open>Against claim C6 as stated: with num_candidates = 2 the pool of C (50 votes) and D
  (70 votes) is returned as it is listed, C before D, which is not sorted by votes
  descending; and the same pool listed the other way round is returned the other way round.\<close>

theorem Candidates_counterexample:
  "Candidates (sfC\<lparr>numCandidates := 2\<rparr>) = Inr (4, [candC, candD]) \<and>
   \<not> sortedCandidates [candC, candD] \<and>
   mset (cachedCandidates (sfC\<lparr>numCandidates := 2, cachedCandidates := rev (cachedCandidates sfC)\<rparr>))
     = mset (cachedCandidates (sfC\<lparr>numCandidates := 2\<rparr>)) \<and>
   Candidates (sfC\<lparr>numCandidates := 2, cachedCandidates := rev (cachedCandidates sfC)\<rparr>)
     = Inr (4, [candD, candC]) \<and>
   Candidates (sfC\<lparr>numCandidates := 2, cachedCandidates := rev (cachedCandidates sfC)\<rparr>)
     \<noteq> Candidates (sfC\<lparr>numCandidates := 2\<rparr>)"
  by (simp add: cand_defs)

section \<open>Nonces\<close>

lemma handleTsf_sender_loaded:
  assumes "handleTsf_sender E tx sf = (Inr (), sf1)"
  shows "\<exists>sender. account E sf (Sender tx) = Some sender"
proof -
  obtain r sfa where L0: "LoadOrCreateState E (Sender tx) 0 sf = (r, sfa)"
    by (cases "LoadOrCreateState E (Sender tx) 0 sf") auto
  with assms obtain sender where "r = Inr sender"
    by (cases r) (auto simp: handleTsf_sender_def)
  with L0 show ?thesis by (auto dest: account_loaded)
qed

lemma handleVote_iter_loaded:
  assumes "handleVote_iter E h v sf = (Inr (), sf1)"
  shows "\<exists>voter. account E sf (VoterAddress v) = Some voter"
proof -
  obtain r sfa where L0: "LoadOrCreateState E (VoterAddress v) 0 sf = (r, sfa)"
    by (cases "LoadOrCreateState E (VoterAddress v) 0 sf") auto
  with assms obtain voter where "r = Inr voter"
    by (cases r) (auto simp: handleVote_iter_def)
  with L0 show ?thesis by (auto dest: account_loaded)
qed

lemma handleTsf_iter_nonce:
  assumes run: "handleTsf_iter E tx sf = (Inr (), sf')" and a: "account E sf a = Some s"
  shows "\<exists>s'. account E sf' a = Some s' \<and> Nonce s \<le> Nonce s'"
proof (cases "IsContract tx")
  case True
  with run a show ?thesis by (simp add: handleTsf_iter_def)
next
  case False
  obtain r1 sf1 where S: "(if \<not> IsCoinbase tx then handleTsf_sender E tx sf else (Inr (), sf))
       = (r1, sf1)"
    by (cases "(if \<not> IsCoinbase tx then handleTsf_sender E tx sf else (Inr (), sf))") auto
  with run False have r1: "r1 = Inr ()" and R: "handleTsf_recipient E tx sf1 = (Inr (), sf')"
    by (cases r1; simp add: handleTsf_iter_def)+
  have "\<exists>s1. account E sf1 a = Some s1 \<and> Nonce s \<le> Nonce s1"
  proof (cases "IsCoinbase tx")
    case True
    with S a show ?thesis by simp
  next
    case False
    with S r1 have S': "handleTsf_sender E tx sf = (Inr (), sf1)" by simp
    from handleTsf_sender_loaded[OF S'] obtain sender
      where "account E sf (Sender tx) = Some sender" ..
    from handleTsf_sender_effect[OF S' this, of a] a show ?thesis by auto
  qed
  then obtain s1 where s1: "account E sf1 a = Some s1" and le: "Nonce s \<le> Nonce s1" by blast
  from handleTsf_recipient_effect[OF R] s1 le show ?thesis by auto
qed

lemma handleTsf_nonce:
  "handleTsf E tsf sf = (Inr (), sf') \<Longrightarrow> account E sf a = Some s \<Longrightarrow>
   \<exists>s'. account E sf' a = Some s' \<and> Nonce s \<le> Nonce s'"
proof (induction tsf arbitrary: sf s)
  case Nil
  then show ?case by simp
next
  case (Cons tx tsf)
  obtain r1 sf1 where I: "handleTsf_iter E tx sf = (r1, sf1)"
    by (cases "handleTsf_iter E tx sf") auto
  with Cons.prems(1) have r1: "r1 = Inr ()" and T: "handleTsf E tsf sf1 = (Inr (), sf')"
    by (cases r1; simp)+
  from handleTsf_iter_nonce[OF I[unfolded r1] Cons.prems(2)] obtain s1
    where s1: "account E sf1 a = Some s1" and le: "Nonce s \<le> Nonce s1" by blast
  from Cons.IH[OF T s1] le show ?case by (meson order_trans)
qed

lemma handleVote_iter_nonce:
  assumes run: "handleVote_iter E h v sf = (Inr (), sf')" and a: "account E sf a = Some s"
  shows "\<exists>s'. account E sf' a = Some s' \<and> Nonce s \<le> Nonce s'"
proof -
  from handleVote_iter_loaded[OF run] obtain voter
    where voter: "account E sf (VoterAddress v) = Some voter" ..
  from handleVote_iter_effect[of E sf v voter h sf'] voter run a
  show ?thesis by auto
qed

lemma handleVote_nonce:
  "handleVote E h vote sf = (Inr (), sf') \<Longrightarrow> account E sf a = Some s \<Longrightarrow>
   \<exists>s'. account E sf' a = Some s' \<and> Nonce s \<le> Nonce s'"
proof (induction vote arbitrary: sf s)
  case Nil
  then show ?case by simp
next
  case (Cons v vote)
  obtain r1 sf1 where I: "handleVote_iter E h v sf = (r1, sf1)"
    by (cases "handleVote_iter E h v sf") auto
  with Cons.prems(1) have r1: "r1 = Inr ()" and T: "handleVote E h vote sf1 = (Inr (), sf')"
    by (cases r1; simp)+
  from handleVote_iter_nonce[OF I[unfolded r1] Cons.prems(2)] obtain s1
    where s1: "account E sf1 a = Some s1" and le: "Nonce s \<le> Nonce s1" by blast
  from Cons.IH[OF T s1] le show ?case by (meson order_trans)
qed

lemma word_less_succ: "(n::uint64) \<noteq> - 1 \<Longrightarrow> n < n + 1"
  by (metis inc_less_eq_triv_imp linorder_less_linear word_le_less_eq)

lemma handleExecution_iter_others:
  assumes "handleExecution_iter E e sf = (r, sf')" "b \<noteq> Executor e"
  shows "map_of (cachedAccount sf') b = map_of (cachedAccount sf) b"
proof (cases "map_of (cachedAccount sf) (Executor e)")
  case None
  with assms show ?thesis
    by (auto simp: handleExecution_iter_def putState_def Let_def split: sum.splits)
next
  case (Some state)
  with assms show ?thesis
    by (auto simp: handleExecution_iter_def putState_def setAccount_def update_conv' Let_def
             split: sum.splits)
qed

text \<open>
  The guarded updates of the transfers and of the votes never lower the nonce of the
  record at any address. An execution raises the executor's nonce strictly, in the cached
  record (or the record of the account trie when the executor is not cached) and in what
  the account trie then holds, and leaves the other cached records alone, as long as the
  executor's nonce is not 2^64 - 1 beforehand.
\<close>

lemma nonce_monotone_appliers:
  "((handleTsf E tsf sf = (Inr (), sf') \<or> handleVote E blockHeight vote sf = (Inr (), sf')) \<and>
    account E sf a = Some s \<longrightarrow>
      (\<exists>s'. account E sf' a = Some s' \<and> Nonce s \<le> Nonce s')) \<and>
   (handleExecution_iter E e sf = (Inr (), sf') \<and>
    addr = (case GetPubkeyHash E (Executor e) of Inl _ \<Rightarrow> [] | Inr a \<Rightarrow> a) \<and>
    (case map_of (cachedAccount sf) (Executor e) of
       Some state \<Rightarrow> Inr state
     | None \<Rightarrow> getState E sf (BytesTo20B E addr)) = Inr s \<and>
    Nonce s \<noteq> - 1 \<longrightarrow>
      (\<exists>s' ss. Nonce s < Nonce s' \<and> stateToBytes E s' = Inr ss \<and>
         trieGet (accountTrie sf') addr = Inr ss \<and>
         (map_of (cachedAccount sf) (Executor e) \<noteq> None \<longrightarrow>
            map_of (cachedAccount sf') (Executor e) = Some s') \<and>
         (\<forall>b. b \<noteq> Executor e \<longrightarrow>
            map_of (cachedAccount sf') b = map_of (cachedAccount sf) b)))"
proof (intro conjI impI)
  assume "(handleTsf E tsf sf = (Inr (), sf') \<or> handleVote E blockHeight vote sf = (Inr (), sf'))
     \<and> account E sf a = Some s"
  then show "\<exists>s'. account E sf' a = Some s' \<and> Nonce s \<le> Nonce s'"
    using handleTsf_nonce handleVote_nonce by blast
next
  assume h: "handleExecution_iter E e sf = (Inr (), sf') \<and>
    addr = (case GetPubkeyHash E (Executor e) of Inl _ \<Rightarrow> [] | Inr a \<Rightarrow> a) \<and>
    (case map_of (cachedAccount sf) (Executor e) of
       Some state \<Rightarrow> Inr state
     | None \<Rightarrow> getState E sf (BytesTo20B E addr)) = Inr s \<and>
    Nonce s \<noteq> - 1"
  then have run: "handleExecution_iter E e sf = (Inr (), sf')" and n: "Nonce s \<noteq> - 1"
    by blast+
  define s' where "s' = s\<lparr>Nonce := max (Nonce s + 1) (ExecNonce e)\<rparr>"
  from handleExecution_iter_effect[of E e sf sf' addr s] h
  obtain ss where ss: "stateToBytes E s' = Inr ss" "trieGet (accountTrie sf') addr = Inr ss"
    and c: "map_of (cachedAccount sf) (Executor e) \<noteq> None \<longrightarrow>
            map_of (cachedAccount sf') (Executor e) = Some s'"
    unfolding s'_def by blast
  have "Nonce s < Nonce s + 1" by (rule word_less_succ[OF n])
  also have "Nonce s + 1 \<le> max (Nonce s + 1) (ExecNonce e)" by (rule max.cobounded1)
  finally have "Nonce s < Nonce s'" by (simp add: s'_def)
  with ss c handleExecution_iter_others[OF run]
  show "\<exists>s' ss. Nonce s < Nonce s' \<and> stateToBytes E s' = Inr ss \<and>
         trieGet (accountTrie sf') addr = Inr ss \<and>
         (map_of (cachedAccount sf) (Executor e) \<noteq> None \<longrightarrow>
            map_of (cachedAccount sf') (Executor e) = Some s') \<and>
         (\<forall>b. b \<noteq> Executor e \<longrightarrow>
            map_of (cachedAccount sf') b = map_of (cachedAccount sf) b)"
    by blast
qed


lemmas wrap_defs = CommitStateChanges_def recoverCandidates_def persistCommit_def
  getCandidates_def CandidatesToMap_def
  handleTsf_iter_def handleTsf_sender_def handleTsf_recipient_def
  LoadOrCreateState_def SubBalance_def AddBalance_def getState_def
  handleExecution_iter_def account_def
  putState_def setAccount_def updateCandidate_def MapToCandidates_def sortCandidates_def
  trieUpsert_def trieCommit_def trieGet_def RootHash_def newState_def
  E0_def sfT_def txW_def execW_def emptyTrie_def Let_def

lemma zero_less_max_word: "(0::uint64) < - 1"
  by (simp add: word_gt_0)

lemma commit_wrap_1: "fst (CommitStateChanges E0 0 [txW] [] [] sfT) = Inr ()"
  by (simp add: wrap_defs zero_less_max_word)

lemma commit_wrap_1_nonce:
  "map_option Nonce (account E0 (snd (CommitStateChanges E0 0 [txW] [] [] sfT)) ''A'') = Some (- 1)"
  by (simp add: wrap_defs zero_less_max_word)

lemma commit_wrap_2:
  "fst (CommitStateChanges E0 1 [] [] [execW] (snd (CommitStateChanges E0 0 [txW] [] [] sfT)))
     = Inr ()"
  by (simp add: wrap_defs zero_less_max_word)

lemma commit_wrap_2_nonce:
  "map_option Nonce (account E0
      (snd (CommitStateChanges E0 1 [] [] [execW]
              (snd (CommitStateChanges E0 0 [txW] [] [] sfT)))) ''A'') = Some 0"
  by (simp add: wrap_defs zero_less_max_word)

lemma nonce_monotone_appliers_example:
  "handleTsf E0 [txT] sfT = (Inr (), snd (handleTsf E0 [txT] sfT)) \<and>
   account E0 sfT ''A'' = Some ((newState 100)\<lparr>Votee := ''E''\<rparr>) \<and>
   (\<exists>s'. account E0 (snd (handleTsf E0 [txT] sfT)) ''A'' = Some s' \<and>
         Nonce ((newState 100)\<lparr>Votee := ''E''\<rparr>) \<le> Nonce s') \<and>
   handleExecution_iter E0 execT sfT = (Inr (), snd (handleExecution_iter E0 execT sfT)) \<and>
   Nonce ((newState 100)\<lparr>Votee := ''E''\<rparr>) \<noteq> - 1 \<and>
   (\<exists>s'. Nonce ((newState 100)\<lparr>Votee := ''E''\<rparr>) < Nonce s' \<and>
      map_of (cachedAccount (snd (handleExecution_iter E0 execT sfT))) (Executor execT) = Some s')"
proof -
  have t: "handleTsf E0 [txT] sfT = (Inr (), snd (handleTsf E0 [txT] sfT))"
    by (rule fst_Inr_unit) (simp add: tsf_defs)
  have a: "account E0 sfT ''A'' = Some ((newState 100)\<lparr>Votee := ''E''\<rparr>)"
    by (simp add: tsf_defs)
  have x: "handleExecution_iter E0 execT sfT = (Inr (), snd (handleExecution_iter E0 execT sfT))"
    by (rule fst_Inr_unit) (simp add: exec_defs)
  have ad: "[65] = (case GetPubkeyHash E0 (Executor execT) of Inl _ \<Rightarrow> [] | Inr a \<Rightarrow> a)"
    by (simp add: E0_def execT_def)
  have s: "(case map_of (cachedAccount sfT) (Executor execT) of
      Some state \<Rightarrow> Inr state
    | None \<Rightarrow> getState E0 sfT (BytesTo20B E0 [65])) = Inr ((newState 100)\<lparr>Votee := ''E''\<rparr>)"
    by (simp add: sfT_def execT_def)
  have c: "map_of (cachedAccount sfT) (Executor execT) \<noteq> None"
    by (simp add: sfT_def execT_def)
  have n: "Nonce ((newState 100)\<lparr>Votee := ''E''\<rparr>) \<noteq> - 1"
    by (simp add: newState_def)
  from nonce_monotone_appliers[of E0 "[txT]" sfT "snd (handleTsf E0 [txT] sfT)" 0 "[]" "''A''"
        "(newState 100)\<lparr>Votee := ''E''\<rparr>", THEN conjunct1] t a
  have p1: "\<exists>s'. account E0 (snd (handleTsf E0 [txT] sfT)) ''A'' = Some s' \<and>
         Nonce ((newState 100)\<lparr>Votee := ''E''\<rparr>) \<le> Nonce s'"
    by blast
  from nonce_monotone_appliers[of E0 "[]" sfT "snd (handleExecution_iter E0 execT sfT)" 0 "[]"
        "''A''" "(newState 100)\<lparr>Votee := ''E''\<rparr>" execT "[65]", THEN conjunct2] x ad s n c
  have p2: "\<exists>s'. Nonce ((newState 100)\<lparr>Votee := ''E''\<rparr>) < Nonce s' \<and>
      map_of (cachedAccount (snd (handleExecution_iter E0 execT sfT))) (Executor execT) = Some s'"
    by blast
  from t a p1 x n p2 show ?thesis by blast
qed

text \<open>
  Claim C10. The nonce of an account is meant never to decrease, and the loop over the
  executions is commented "increase Executor's Nonce for every execution in this block".
  The code at the largest nonce: a first commit applies a transfer of A whose nonce is
  2^64 - 1, which the guarded update makes A's nonce; a second commit applies an execution
  by A, the unchecked increment \<open>state.Nonce + 1\<close> wraps around to 0, the execution's
  nonce 0 does not exceed it, and A's nonce is 0 after the commit. Both commits succeed.
\<close>

theorem execution_nonce_wraps:
  "fst (CommitStateChanges E0 0 [txW] [] [] sfT) = Inr () \<and>
   map_option Nonce (account E0 (snd (CommitStateChanges E0 0 [txW] [] [] sfT)) ''A'')
     = Some (- 1) \<and>
   fst (CommitStateChanges E0 1 [] [] [execW] (snd (CommitStateChanges E0 0 [txW] [] [] sfT)))
     = Inr () \<and>
   map_option Nonce (account E0
      (snd (CommitStateChanges E0 1 [] [] [execW]
              (snd (CommitStateChanges E0 0 [txW] [] [] sfT)))) ''A'') = Some 0 \<and>
   (0 :: uint64) < - 1"
  using commit_wrap_1 commit_wrap_1_nonce commit_wrap_2 commit_wrap_2_nonce zero_less_max_word
  by simp

end
